theory Spec2Isabelle
  imports
    Main
    "HOL-Library.Word"
    "HOL-Library.Char_ord"
    "HOL-Library.List_Lexorder"
    "HOL-Library.Sublist"
begin

section \<open>The restore command of the influx CLI\<close>

text \<open>
  A shallow embedding of the \<^verbatim>\<open>restore\<close> command (\<^verbatim>\<open>cmdRestoreBuilder\<close> and its
  methods). The builder's fields are a record that every method takes and returns; the
  file system, the metadata store of the backup and the remote server are read through
  records of functions; every call to a service is written to a trace of events, so that
  what was called, with which arguments and in which order, can be stated.
\<close>

subsection \<open>Errors\<close>

text \<open>
  Every error the command builds with \<^verbatim>\<open>fmt.Errorf\<close> is a constructor of its own
  (a wrapped error is the constructor's argument). \<open>External code msg\<close> is an error
  that comes from outside the command: the operating system, a library, the metadata
  store or the remote server; \<open>code\<close> is what \<^verbatim>\<open>influxdb.ErrorCode\<close> returns for it.
  \<open>NilDereference\<close> is the panic of reading a field through a nil pointer.
\<close>

datatype error =
    External string string
  | MustSpecifyPath
  | TooManyArgs
  | MustSpecifySourceOrg
  | MustSpecifySourceBucket
  | ProcessingManifestsFailed error
  | NoManifestFiles string
  | ReadManifest error
  | CannotCreateOrganization error
  | CannotFindOrganization error
  | CannotCreateBucket error
  | BucketDatabaseNotFound string
  | CannotMarshalDatabaseInfo error
  | CannotRestoreBucket error
  | NilDereference

text \<open>
  Modelled from the spec: \<^verbatim>\<open>influxdb.ErrorCode\<close> and the code \<^verbatim>\<open>influxdb.ENotFound\<close>
  are not under src/. The lookup of an organization reports not-found when the code of
  its error is \<open>ENotFound\<close>; an error that carries no code has the code \<open>EInternal\<close>.
\<close>

definition ENotFound :: string where
  "ENotFound = ''not found''"

definition EInternal :: string where
  "EInternal = ''internal error''"

fun ErrorCode :: "error \<Rightarrow> string" where
  "ErrorCode (External code msg) = code"
| "ErrorCode _ = EInternal"

subsection \<open>Manifests\<close>

text \<open>
  Modelled from the spec: the declarations of \<^verbatim>\<open>influxdb.ManifestEntry\<close>,
  \<^verbatim>\<open>influxdb.ManifestKVEntry\<close> and \<^verbatim>\<open>influxdb.Manifest\<close> are not under src/. A
  manifest entry has a shard id, the id of its bucket as a string, a file name and a
  last-modified time; the entry of the metadata snapshot has a file name and a
  last-modified time; a manifest has one such entry and a sequence of manifest entries.
  The command reads exactly these fields. A shard id is a \<^verbatim>\<open>uint64\<close>; a
  \<^verbatim>\<open>time.Time\<close> is an instant, an integer, and \<^verbatim>\<open>t.After(u)\<close> is \<open>u < t\<close>. The
  \<^verbatim>\<open>KV\<close> field of a manifest is a struct, not a pointer: the command takes its
  address (\<^verbatim>\<open>b.kvEntry = &manifest.KV\<close>) and assigns it to a
  \<^verbatim>\<open>*influxdb.ManifestKVEntry\<close>.
\<close>

type_synonym uint64 = "64 word"

record ManifestEntry =
  ShardID :: uint64
  BucketID :: string
  FileName :: string
  LastModified :: int

record ManifestKVEntry =
  FileName_kv :: string
  LastModified_kv :: int

record Manifest =
  KV :: ManifestKVEntry
  Files :: "ManifestEntry list"

subsection \<open>The builder\<close>

record cmdRestoreBuilder =
  full :: bool
  bucketID :: string
  bucketName :: string
  newBucketName :: string
  newOrgName :: string
  org_id :: string
  org_name :: string
  path :: string
  kvEntry :: "ManifestKVEntry option"
  shardEntries :: "uint64 \<rightharpoonup> ManifestEntry"

definition newCmdRestoreBuilder :: cmdRestoreBuilder where
  "newCmdRestoreBuilder =
     \<lparr>full = False, bucketID = [], bucketName = [], newBucketName = [], newOrgName = [],
      org_id = [], org_name = [], path = [], kvEntry = None, shardEntries = Map.empty\<rparr>"

subsection \<open>The file system\<close>

text \<open>
  What the command reads from the disk. \<open>Glob\<close>, \<open>Join\<close>, \<open>Stat\<close>, \<open>ReadFile\<close> and
  \<open>Open\<close> are the functions of \<^verbatim>\<open>filepath\<close>, \<^verbatim>\<open>os\<close> and \<^verbatim>\<open>ioutil\<close>;
  \<open>Unmarshal\<close> is \<^verbatim>\<open>json.Unmarshal\<close> into a fresh \<^verbatim>\<open>influxdb.Manifest\<close>;
  \<open>NewReader\<close> is \<^verbatim>\<open>gzip.NewReader\<close> on the file at that path. The disk does not
  change during a run.
\<close>

datatype FileInfo = FileInfo (IsDir: bool)

record filesystem =
  Glob :: "string \<Rightarrow> error + string list"
  Join :: "string \<Rightarrow> string \<Rightarrow> string"
  Stat :: "string \<Rightarrow> error + FileInfo"
  ReadFile :: "string \<Rightarrow> error + string"
  Unmarshal :: "string \<Rightarrow> error + Manifest"
  Open :: "string \<Rightarrow> error option"
  NewReader :: "string \<Rightarrow> error option"

subsection \<open>loadIncremental\<close>

text \<open>
  The body of the inner loop after the \<^verbatim>\<open>os.Stat\<close> check: the entry of the shard id
  is replaced when there is none or when the new one was modified after it.
\<close>

definition keepLatest ::
  "(uint64 \<rightharpoonup> ManifestEntry) \<Rightarrow> ManifestEntry \<Rightarrow> (uint64 \<rightharpoonup> ManifestEntry)" where
  "keepLatest m sh =
     (case m (ShardID sh) of
        None \<Rightarrow> m(ShardID sh \<mapsto> sh)
      | Some entry \<Rightarrow>
          if LastModified entry < LastModified sh then m(ShardID sh \<mapsto> sh) else m)"

text \<open>The inner loop, over \<^verbatim>\<open>manifest.Files\<close>.\<close>

fun loadFiles ::
  "filesystem \<Rightarrow> string \<Rightarrow> ManifestEntry list \<Rightarrow> (uint64 \<rightharpoonup> ManifestEntry)
     \<Rightarrow> (uint64 \<rightharpoonup> ManifestEntry)" where
  "loadFiles fs p [] m = m"
| "loadFiles fs p (sh # shs) m =
     (case Stat fs (Join fs p (FileName sh)) of
        Inl err \<Rightarrow> loadFiles fs p shs m
      | Inr fi \<Rightarrow> loadFiles fs p shs (keepLatest m sh))"

text \<open>
  The outer loop, over the manifest file names. An error returns at once; the builder
  keeps what the loop has written so far, so the builder is returned beside the error.
\<close>

fun loadManifests ::
  "filesystem \<Rightarrow> string list \<Rightarrow> cmdRestoreBuilder \<Rightarrow> error option \<times> cmdRestoreBuilder" where
  "loadManifests fs [] b = (None, b)"
| "loadManifests fs (filename # rest) b =
     (case Stat fs filename of
        Inl err \<Rightarrow> (Some err, b)
      | Inr fi \<Rightarrow>
          if IsDir fi then loadManifests fs rest b
          else
            (case ReadFile fs filename of
               Inl err \<Rightarrow> (Some err, b)
             | Inr buf \<Rightarrow>
                 (case Unmarshal fs buf of
                    Inl err \<Rightarrow> (Some (ReadManifest err), b)
                  | Inr manifest \<Rightarrow>
                      loadManifests fs rest
                        (b\<lparr>kvEntry :=
                             (case kvEntry b of None \<Rightarrow> Some (KV manifest) | Some kv \<Rightarrow> Some kv),
                           shardEntries :=
                             loadFiles fs (path b) (Files manifest) (shardEntries b)\<rparr>))))"

definition loadIncremental ::
  "filesystem \<Rightarrow> cmdRestoreBuilder \<Rightarrow> error option \<times> cmdRestoreBuilder" where
  "loadIncremental fs b =
     (case Glob fs (Join fs (path b) ''*.manifest'') of
        Inl err \<Rightarrow> (Some err, b)
      | Inr manifests \<Rightarrow>
          if length manifests = 0 then (None, b)
          else loadManifests fs (rev (sort manifests)) (b\<lparr>shardEntries := Map.empty\<rparr>))"

subsection \<open>Tenants, events and services\<close>

text \<open>
  Modelled from the spec: the declaration of \<^verbatim>\<open>influxdb.ID\<close> is not under src/. An
  identifier is a \<^verbatim>\<open>uint64\<close>.
\<close>

type_synonym ID = uint64

text \<open>
  \<^verbatim>\<open>influxdb.Organization\<close> and \<^verbatim>\<open>influxdb.OrganizationFilter\<close> are declared in
  src/kit/cli/viper.go (its part of package \<^verbatim>\<open>influxdb\<close>); the records carry the
  fields the command reads or writes, \<^verbatim>\<open>ID\<close> and \<^verbatim>\<open>Name\<close>, and leave out
  \<^verbatim>\<open>Description\<close>, \<^verbatim>\<open>CRUDLog\<close> and \<^verbatim>\<open>UserID\<close>, which it never touches.
\<close>

record Organization =
  org_ID :: ID
  org_Name :: string

record OrganizationFilter =
  of_Name :: "string option"
  of_ID :: "ID option"

text \<open>
  Modelled from the spec: the declarations of \<^verbatim>\<open>influxdb.Bucket\<close> and
  \<^verbatim>\<open>influxdb.BucketFilter\<close> are not under src/. A bucket has an identifier, a name and
  the identifier of its organization; buckets are enumerated by organization id, id or
  name.
\<close>

record Bucket =
  bkt_ID :: ID
  bkt_OrgID :: ID
  bkt_Name :: string

record BucketFilter =
  bf_ID :: "ID option"
  bf_Name :: "string option"
  bf_OrganizationID :: "ID option"

text \<open>
  The trace. \<open>ReadBackupDir\<close> is the call of \<^verbatim>\<open>loadIncremental\<close>, \<open>Warn\<close> the
  warning of \<^verbatim>\<open>restoreBucket\<close>; the \<open>Local\<close> events are queries of the metadata
  store of the backup, opened from the local disk, and the \<open>Remote\<close> events are calls
  to the server. \<open>RemoteRestoreShard\<close> has the arguments of \<^verbatim>\<open>restoreShard\<close>: the
  shard id sent to the server and the manifest entry whose archive is streamed.
\<close>

datatype event =
    ReadBackupDir string
  | Warn uint64 string string
  | LocalFindOrganizations OrganizationFilter
  | LocalFindBuckets BucketFilter
  | LocalDatabase string
  | RemoteRestoreKVStore string
  | RemoteFindOrganization OrganizationFilter
  | RemoteCreateOrganization Organization
  | RemoteCreateBucket Bucket
  | RemoteRestoreBucket ID string
  | RemoteRestoreShard uint64 ManifestEntry

fun isRemote :: "event \<Rightarrow> bool" where
  "isRemote (RemoteRestoreKVStore f) = True"
| "isRemote (RemoteFindOrganization flt) = True"
| "isRemote (RemoteCreateOrganization org) = True"
| "isRemote (RemoteCreateBucket bkt) = True"
| "isRemote (RemoteRestoreBucket i buf) = True"
| "isRemote (RemoteRestoreShard i f) = True"
| "isRemote _ = False"

text \<open>
  The server: \<^verbatim>\<open>http.RestoreService\<close>, \<^verbatim>\<open>tenant.OrgClientService\<close> and
  \<^verbatim>\<open>tenant.BucketClientService\<close>. The server has a state of its own, so every
  answer may depend on the calls made before it: each function takes the trace so far.
  \<open>CreateOrganization\<close> and \<open>CreateBucket\<close> take a pointer and return the
  struct as the call leaves it.
\<close>

record remote =
  RestoreKVStore :: "event list \<Rightarrow> string \<Rightarrow> error option"
  FindOrganization :: "event list \<Rightarrow> OrganizationFilter \<Rightarrow> error + Organization"
  CreateOrganization :: "event list \<Rightarrow> Organization \<Rightarrow> error + Organization"
  CreateBucket :: "event list \<Rightarrow> Bucket \<Rightarrow> error + Bucket"
  RestoreBucket :: "event list \<Rightarrow> ID \<Rightarrow> string \<Rightarrow> error + (uint64 \<rightharpoonup> uint64)"
  RestoreShard :: "event list \<Rightarrow> uint64 \<Rightarrow> string \<Rightarrow> error option"

text \<open>
  The metadata store of the backup, as \<^verbatim>\<open>tenant.Service\<close> and \<^verbatim>\<open>meta.Client\<close>
  read it: \<open>metaOpen\<close> is \<^verbatim>\<open>metaClient.Open\<close>, \<open>Database\<close> is
  \<^verbatim>\<open>metaClient.Database\<close> (nil is \<open>None\<close>), \<open>MarshalBinary\<close> serializes a
  database info, which is kept as a string.
\<close>

type_synonym DatabaseInfo = string

record metastore =
  metaOpen :: "error option"
  FindOrganizations :: "OrganizationFilter \<Rightarrow> error + Organization list"
  FindBuckets :: "BucketFilter \<Rightarrow> error + Bucket list"
  Database :: "string \<Rightarrow> DatabaseInfo option"
  MarshalBinary :: "DatabaseInfo \<Rightarrow> error + string"

text \<open>
  Everything outside the builder. \<open>boltOpen\<close> opens the bolt file at a path and gives
  the store in it; \<open>IDFromString\<close> and \<open>IDString\<close> are \<^verbatim>\<open>influxdb.IDFromString\<close>
  and \<^verbatim>\<open>ID.String\<close>; \<open>NewLogger\<close> is \<^verbatim>\<open>logconf.New(os.Stdout)\<close>;
  \<open>mapOrder\<close> is the order in which a \<^verbatim>\<open>range\<close> over \<^verbatim>\<open>b.shardEntries\<close>
  visits the keys, which Go leaves open: it may differ from loop to loop, so it takes
  the trace at the start of the loop.
\<close>

record world =
  disk :: filesystem
  boltOpen :: "string \<Rightarrow> error + metastore"
  server :: remote
  IDFromString :: "string \<Rightarrow> error + ID"
  IDString :: "ID \<Rightarrow> string"
  NewLogger :: "error option"
  newHTTPClient :: "error option"
  mapOrder :: "event list \<Rightarrow> uint64 list"

subsection \<open>cmdRestore: the argument check\<close>

definition cmdRestore_Args ::
  "cmdRestoreBuilder \<Rightarrow> string list \<Rightarrow> error option \<times> cmdRestoreBuilder" where
  "cmdRestore_Args b args =
     (if length args = 0 then (Some MustSpecifyPath, b)
      else if length args > 1 then (Some TooManyArgs, b)
      else (None, b\<lparr>path := args ! 0\<rparr>))"

subsection \<open>restoreShard, restoreKVStore, restoreFull\<close>

definition restoreShard ::
  "world \<Rightarrow> cmdRestoreBuilder \<Rightarrow> uint64 \<Rightarrow> ManifestEntry \<Rightarrow> event list
     \<Rightarrow> error option \<times> event list" where
  "restoreShard w b newShardID file tr =
     (let f = Join (disk w) (path b) (FileName file) in
      case Open (disk w) f of
        Some err \<Rightarrow> (Some err, tr)
      | None \<Rightarrow>
          (case NewReader (disk w) f of
             Some err \<Rightarrow> (Some err, tr)
           | None \<Rightarrow>
               (RestoreShard (server w) tr newShardID f, tr @ [RemoteRestoreShard newShardID file])))"

definition restoreKVStore ::
  "world \<Rightarrow> cmdRestoreBuilder \<Rightarrow> event list \<Rightarrow> error option \<times> event list" where
  "restoreKVStore w b tr =
     (case kvEntry b of
        None \<Rightarrow> (Some NilDereference, tr)
      | Some kv \<Rightarrow>
          (let f = Join (disk w) (path b) (FileName_kv kv) in
           case Open (disk w) f of
             Some err \<Rightarrow> (Some err, tr)
           | None \<Rightarrow> (RestoreKVStore (server w) tr f, tr @ [RemoteRestoreKVStore f])))"

text \<open>The loop of \<^verbatim>\<open>restoreFull\<close>, over the keys of \<^verbatim>\<open>b.shardEntries\<close>.\<close>

fun restoreFull_shards ::
  "world \<Rightarrow> cmdRestoreBuilder \<Rightarrow> uint64 list \<Rightarrow> event list \<Rightarrow> error option \<times> event list" where
  "restoreFull_shards w b [] tr = (None, tr)"
| "restoreFull_shards w b (k # ks) tr =
     (case shardEntries b k of
        None \<Rightarrow> restoreFull_shards w b ks tr
      | Some file \<Rightarrow>
          (case restoreShard w b (ShardID file) file tr of
             (Some err, tr') \<Rightarrow> (Some err, tr')
           | (None, tr') \<Rightarrow> restoreFull_shards w b ks tr'))"

definition restoreFull ::
  "world \<Rightarrow> cmdRestoreBuilder \<Rightarrow> event list \<Rightarrow> error option \<times> event list" where
  "restoreFull w b tr =
     (case restoreKVStore w b tr of
        (Some err, tr') \<Rightarrow> (Some err, tr')
      | (None, tr') \<Rightarrow> restoreFull_shards w b (mapOrder w tr') tr')"

subsection \<open>restoreBucket\<close>

text \<open>
  The loop of \<^verbatim>\<open>restoreBucket\<close>, over the keys of \<^verbatim>\<open>b.shardEntries\<close>. A shard of
  the bucket that the map of the server does not hold writes the warning and returns
  nil from \<^verbatim>\<open>restoreBucket\<close>.
\<close>

fun restoreBucket_shards ::
  "world \<Rightarrow> cmdRestoreBuilder \<Rightarrow> Bucket \<Rightarrow> (uint64 \<rightharpoonup> uint64) \<Rightarrow> uint64 list \<Rightarrow> event list
     \<Rightarrow> error option \<times> event list" where
  "restoreBucket_shards w b bkt shardIDMap [] tr = (None, tr)"
| "restoreBucket_shards w b bkt shardIDMap (k # ks) tr =
     (case shardEntries b k of
        None \<Rightarrow> restoreBucket_shards w b bkt shardIDMap ks tr
      | Some file \<Rightarrow>
          if IDString w (bkt_ID bkt) \<noteq> BucketID file
          then restoreBucket_shards w b bkt shardIDMap ks tr
          else
            (case shardIDMap (ShardID file) of
               None \<Rightarrow> (None, tr @ [Warn (ShardID file) (BucketID file) (FileName file)])
             | Some newID \<Rightarrow>
                 (case restoreShard w b newID file tr of
                    (Some err, tr') \<Rightarrow> (Some err, tr')
                  | (None, tr') \<Rightarrow> restoreBucket_shards w b bkt shardIDMap ks tr')))"

definition restoreBucket ::
  "world \<Rightarrow> metastore \<Rightarrow> cmdRestoreBuilder \<Rightarrow> Bucket \<Rightarrow> event list
     \<Rightarrow> error option \<times> event list" where
  "restoreBucket w store b bkt tr =
     (let newBucket = (if newBucketName b \<noteq> [] then bkt\<lparr>bkt_Name := newBucketName b\<rparr> else bkt);
          tr1 = tr @ [RemoteCreateBucket newBucket]
      in
      case CreateBucket (server w) tr newBucket of
        Inl err \<Rightarrow> (Some (CannotCreateBucket err), tr1)
      | Inr created \<Rightarrow>
          (let tr2 = tr1 @ [LocalDatabase (IDString w (bkt_ID bkt))] in
           case Database store (IDString w (bkt_ID bkt)) of
             None \<Rightarrow> (Some (BucketDatabaseNotFound (IDString w (bkt_ID bkt))), tr2)
           | Some dbi \<Rightarrow>
               (case MarshalBinary store dbi of
                  Inl err \<Rightarrow> (Some (CannotMarshalDatabaseInfo err), tr2)
                | Inr buf \<Rightarrow>
                    (let tr3 = tr2 @ [RemoteRestoreBucket (bkt_ID created) buf] in
                     case RestoreBucket (server w) tr2 (bkt_ID created) buf of
                       Inl err \<Rightarrow> (Some (CannotRestoreBucket err), tr3)
                     | Inr shardIDMap \<Rightarrow>
                         restoreBucket_shards w b bkt shardIDMap (mapOrder w tr3) tr3))))"

subsection \<open>restoreOrganization\<close>

text \<open>
  The first part of \<^verbatim>\<open>restoreOrganization\<close>: the organization is looked up on the
  server by the name it will have and created when the lookup says not found. The result
  is \<^verbatim>\<open>newOrg\<close> as the rest of the function reads it.
\<close>

definition findOrCreateOrganization ::
  "world \<Rightarrow> cmdRestoreBuilder \<Rightarrow> Organization \<Rightarrow> event list
     \<Rightarrow> (error + Organization) \<times> event list" where
  "findOrCreateOrganization w b org tr =
     (let newOrg = (if newOrgName b \<noteq> [] then org\<lparr>org_Name := newOrgName b\<rparr> else org);
          flt = \<lparr>of_Name = Some (org_Name newOrg), of_ID = None\<rparr>;
          tr1 = tr @ [RemoteFindOrganization flt]
      in
      case FindOrganization (server w) tr flt of
        Inl err \<Rightarrow>
          if ErrorCode err = ENotFound
          then
            (case CreateOrganization (server w) tr1 newOrg of
               Inl err' \<Rightarrow> (Inl (CannotCreateOrganization err'), tr1 @ [RemoteCreateOrganization newOrg])
             | Inr created \<Rightarrow> (Inr created, tr1 @ [RemoteCreateOrganization newOrg]))
          else (Inl (CannotFindOrganization err), tr1)
      | Inr found \<Rightarrow> (Inr (newOrg\<lparr>org_ID := org_ID found\<rparr>), tr1))"

text \<open>The bucket filter of \<^verbatim>\<open>restoreOrganization\<close>.\<close>

definition bucketFilter ::
  "world \<Rightarrow> cmdRestoreBuilder \<Rightarrow> Organization \<Rightarrow> error + BucketFilter" where
  "bucketFilter w b org =
     (if bucketID b \<noteq> [] then
        (case IDFromString w (bucketID b) of
           Inl err \<Rightarrow> Inl err
         | Inr i \<Rightarrow> Inr \<lparr>bf_ID = Some i, bf_Name = None, bf_OrganizationID = Some (org_ID org)\<rparr>)
      else if bucketName b \<noteq> [] then
        Inr \<lparr>bf_ID = None, bf_Name = Some (bucketName b), bf_OrganizationID = Some (org_ID org)\<rparr>
      else Inr \<lparr>bf_ID = None, bf_Name = None, bf_OrganizationID = Some (org_ID org)\<rparr>)"

text \<open>The loop of \<^verbatim>\<open>restoreOrganization\<close>, over the buckets found.\<close>

fun restoreOrganization_buckets ::
  "world \<Rightarrow> metastore \<Rightarrow> cmdRestoreBuilder \<Rightarrow> ID \<Rightarrow> Bucket list \<Rightarrow> event list
     \<Rightarrow> error option \<times> event list" where
  "restoreOrganization_buckets w store b newOrgID [] tr = (None, tr)"
| "restoreOrganization_buckets w store b newOrgID (bkt # bkts) tr =
     (if prefix ''_'' (bkt_Name bkt)
      then restoreOrganization_buckets w store b newOrgID bkts tr
      else
        (case restoreBucket w store b (bkt\<lparr>bkt_OrgID := newOrgID\<rparr>) tr of
           (Some err, tr') \<Rightarrow> (Some err, tr')
         | (None, tr') \<Rightarrow> restoreOrganization_buckets w store b newOrgID bkts tr'))"

definition restoreOrganization ::
  "world \<Rightarrow> metastore \<Rightarrow> cmdRestoreBuilder \<Rightarrow> Organization \<Rightarrow> event list
     \<Rightarrow> error option \<times> event list" where
  "restoreOrganization w store b org tr =
     (case findOrCreateOrganization w b org tr of
        (Inl err, tr1) \<Rightarrow> (Some err, tr1)
      | (Inr newOrg, tr1) \<Rightarrow>
          (case bucketFilter w b org of
             Inl err \<Rightarrow> (Some err, tr1)
           | Inr flt \<Rightarrow>
               (case FindBuckets store flt of
                  Inl err \<Rightarrow> (Some err, tr1 @ [LocalFindBuckets flt])
                | Inr buckets \<Rightarrow>
                    restoreOrganization_buckets w store b (org_ID newOrg) buckets
                      (tr1 @ [LocalFindBuckets flt]))))"

subsection \<open>restoreOrganizations, restorePartial, restoreRunE\<close>

definition organizationFilter :: "world \<Rightarrow> cmdRestoreBuilder \<Rightarrow> error + OrganizationFilter" where
  "organizationFilter w b =
     (if org_id b \<noteq> [] then
        (case IDFromString w (org_id b) of
           Inl err \<Rightarrow> Inl err
         | Inr i \<Rightarrow> Inr \<lparr>of_Name = None, of_ID = Some i\<rparr>)
      else if org_name b \<noteq> [] then Inr \<lparr>of_Name = Some (org_name b), of_ID = None\<rparr>
      else Inr \<lparr>of_Name = None, of_ID = None\<rparr>)"

fun restoreOrganizations_orgs ::
  "world \<Rightarrow> metastore \<Rightarrow> cmdRestoreBuilder \<Rightarrow> Organization list \<Rightarrow> event list
     \<Rightarrow> error option \<times> event list" where
  "restoreOrganizations_orgs w store b [] tr = (None, tr)"
| "restoreOrganizations_orgs w store b (org # orgs) tr =
     (case restoreOrganization w store b org tr of
        (Some err, tr') \<Rightarrow> (Some err, tr')
      | (None, tr') \<Rightarrow> restoreOrganizations_orgs w store b orgs tr')"

definition restoreOrganizations ::
  "world \<Rightarrow> metastore \<Rightarrow> cmdRestoreBuilder \<Rightarrow> event list \<Rightarrow> error option \<times> event list" where
  "restoreOrganizations w store b tr =
     (case organizationFilter w b of
        Inl err \<Rightarrow> (Some err, tr)
      | Inr flt \<Rightarrow>
          (case FindOrganizations store flt of
             Inl err \<Rightarrow> (Some err, tr @ [LocalFindOrganizations flt])
           | Inr orgs \<Rightarrow> restoreOrganizations_orgs w store b orgs (tr @ [LocalFindOrganizations flt])))"

definition restorePartial ::
  "world \<Rightarrow> cmdRestoreBuilder \<Rightarrow> event list \<Rightarrow> error option \<times> event list" where
  "restorePartial w b tr =
     (case kvEntry b of
        None \<Rightarrow> (Some NilDereference, tr)
      | Some kv \<Rightarrow>
          (case boltOpen w (Join (disk w) (path b) (FileName_kv kv)) of
             Inl err \<Rightarrow> (Some err, tr)
           | Inr store \<Rightarrow>
               (case metaOpen store of
                  Some err \<Rightarrow> (Some err, tr)
                | None \<Rightarrow> restoreOrganizations w store b tr)))"

text \<open>
  \<^verbatim>\<open>restoreRunE\<close> returns the error, the builder as it leaves it and the trace of the
  whole run.
\<close>

definition restoreRunE ::
  "world \<Rightarrow> cmdRestoreBuilder \<Rightarrow> error option \<times> cmdRestoreBuilder \<times> event list" where
  "restoreRunE w b =
     (case NewLogger w of
        Some err \<Rightarrow> (Some err, b, [])
      | None \<Rightarrow>
          if newOrgName b \<noteq> [] \<and> org_id b = [] \<and> org_name b = []
          then (Some MustSpecifySourceOrg, b, [])
          else if newBucketName b \<noteq> [] \<and> bucketID b = [] \<and> bucketName b = []
          then (Some MustSpecifySourceBucket, b, [])
          else
            (case loadIncremental (disk w) b of
               (Some err, b') \<Rightarrow> (Some (ProcessingManifestsFailed err), b', [ReadBackupDir (path b)])
             | (None, b') \<Rightarrow>
                 if kvEntry b' = None
                 then (Some (NoManifestFiles (path b')), b', [ReadBackupDir (path b)])
                 else
                   (case newHTTPClient w of
                      Some err \<Rightarrow> (Some err, b', [ReadBackupDir (path b)])
                    | None \<Rightarrow>
                        if \<not> full b'
                        then (case restorePartial w b' [ReadBackupDir (path b)] of
                                (err, tr) \<Rightarrow> (err, b', tr))
                        else (case restoreFull w b' [ReadBackupDir (path b)] of
                                (err, tr) \<Rightarrow> (err, b', tr)))))"

section \<open>Notions used to state the properties\<close>

text \<open>
  A shard descriptor is present when \<^verbatim>\<open>os.Stat\<close> finds its archive in the backup
  directory. A manifest file name is parsed when it is a regular file that is read and
  unmarshalled, and a directory when \<^verbatim>\<open>os.Stat\<close> says so. The candidates of a list of
  manifest file names are the present descriptors of the parsed manifests.
\<close>

definition present :: "filesystem \<Rightarrow> string \<Rightarrow> ManifestEntry \<Rightarrow> bool" where
  "present fs p sh = (case Stat fs (Join fs p (FileName sh)) of Inl err \<Rightarrow> False | Inr fi \<Rightarrow> True)"

definition parsed :: "filesystem \<Rightarrow> string \<Rightarrow> Manifest option" where
  "parsed fs filename =
     (case Stat fs filename of
        Inl err \<Rightarrow> None
      | Inr fi \<Rightarrow>
          if IsDir fi then None
          else (case ReadFile fs filename of
                  Inl err \<Rightarrow> None
                | Inr buf \<Rightarrow> (case Unmarshal fs buf of Inl err \<Rightarrow> None | Inr manifest \<Rightarrow> Some manifest)))"

definition isDirectory :: "filesystem \<Rightarrow> string \<Rightarrow> bool" where
  "isDirectory fs filename = (case Stat fs filename of Inl err \<Rightarrow> False | Inr fi \<Rightarrow> IsDir fi)"

definition candidates :: "filesystem \<Rightarrow> string \<Rightarrow> string list \<Rightarrow> ManifestEntry list" where
  "candidates fs p ms =
     concat (map (\<lambda>filename. case parsed fs filename of
                                 None \<Rightarrow> []
                               | Some manifest \<Rightarrow> filter (present fs p) (Files manifest)) ms)"

text \<open>
  The event of the full restore for a key of \<^verbatim>\<open>b.shardEntries\<close>: the entry of the key
  is sent under its own shard id.
\<close>

definition fullTransfer :: "cmdRestoreBuilder \<Rightarrow> uint64 \<Rightarrow> event" where
  "fullTransfer b k =
     (case shardEntries b k of
        None \<Rightarrow> RemoteRestoreShard k \<lparr>ShardID = k, BucketID = [], FileName = [], LastModified = 0\<rparr>
      | Some file \<Rightarrow> RemoteRestoreShard (ShardID file) file)"

text \<open>
  What the disk and the server answer to the transfer of the key at position \<open>j\<close> of
  the map order, when the keys before it have been transferred after the trace \<open>tr\<close>:
  the error, if any, and whether the server was called.
\<close>

definition transferOutcome ::
  "world \<Rightarrow> cmdRestoreBuilder \<Rightarrow> event list \<Rightarrow> uint64 list \<Rightarrow> nat \<Rightarrow> error option \<times> bool" where
  "transferOutcome w b tr keys j =
     (case shardEntries b (keys ! j) of
        None \<Rightarrow> (None, False)
      | Some file \<Rightarrow>
          (let f = Join (disk w) (path b) (FileName file) in
           case Open (disk w) f of
             Some err \<Rightarrow> (Some err, False)
           | None \<Rightarrow>
               (case NewReader (disk w) f of
                  Some err \<Rightarrow> (Some err, False)
                | None \<Rightarrow>
                    (RestoreShard (server w) (tr @ map (fullTransfer b) (take j keys)) (ShardID file) f,
                     True))))"

text \<open>
  For the partial restore: the bucket that \<^verbatim>\<open>restoreBucket\<close> sends to the server, a
  key of \<^verbatim>\<open>b.shardEntries\<close> whose entry belongs to a bucket, a key whose entry the map
  of the server does not hold, and the event of the loop of \<^verbatim>\<open>restoreBucket\<close> for a
  key of the bucket: the transfer under the new shard id, or the warning.
\<close>

definition renamedBucket :: "cmdRestoreBuilder \<Rightarrow> Bucket \<Rightarrow> Bucket" where
  "renamedBucket b bkt = (if newBucketName b \<noteq> [] then bkt\<lparr>bkt_Name := newBucketName b\<rparr> else bkt)"

definition ofBucket :: "world \<Rightarrow> cmdRestoreBuilder \<Rightarrow> Bucket \<Rightarrow> uint64 \<Rightarrow> bool" where
  "ofBucket w b bkt k =
     (case shardEntries b k of
        None \<Rightarrow> False
      | Some file \<Rightarrow> BucketID file = IDString w (bkt_ID bkt))"

definition unmapped :: "cmdRestoreBuilder \<Rightarrow> (uint64 \<rightharpoonup> uint64) \<Rightarrow> uint64 \<Rightarrow> bool" where
  "unmapped b shardIDMap k =
     (case shardEntries b k of
        None \<Rightarrow> False
      | Some file \<Rightarrow> shardIDMap (ShardID file) = None)"

definition partialTransfer :: "cmdRestoreBuilder \<Rightarrow> (uint64 \<rightharpoonup> uint64) \<Rightarrow> uint64 \<Rightarrow> event" where
  "partialTransfer b shardIDMap k =
     (case shardEntries b k of
        None \<Rightarrow> Warn k [] []
      | Some file \<Rightarrow>
          (case shardIDMap (ShardID file) of
             None \<Rightarrow> Warn (ShardID file) (BucketID file) (FileName file)
           | Some newID \<Rightarrow> RemoteRestoreShard newID file))"

text \<open>
  An internal bucket has a name that starts with \<^verbatim>\<open>_\<close>. The target of a bucket of
  the backup is the bucket as it is created on the server: in the organization of the
  server and under the new name when there is one. The buckets and organizations
  created and the entries transferred are read off a trace. After its create call,
  \<^verbatim>\<open>restoreBucket\<close> only makes the events of \<open>afterCreate\<close>; the loop over the
  buckets only makes the events of \<open>bucketLoopEvent\<close>.
\<close>

definition isInternal :: "Bucket \<Rightarrow> bool" where
  "isInternal bkt = prefix ''_'' (bkt_Name bkt)"

definition targetBucket :: "cmdRestoreBuilder \<Rightarrow> ID \<Rightarrow> Bucket \<Rightarrow> Bucket" where
  "targetBucket b newOrgID bkt = renamedBucket b (bkt\<lparr>bkt_OrgID := newOrgID\<rparr>)"

fun createdBuckets :: "event list \<Rightarrow> Bucket list" where
  "createdBuckets [] = []"
| "createdBuckets (RemoteCreateBucket bkt # evs) = bkt # createdBuckets evs"
| "createdBuckets (ev # evs) = createdBuckets evs"

fun createdOrganizations :: "event list \<Rightarrow> Organization list" where
  "createdOrganizations [] = []"
| "createdOrganizations (RemoteCreateOrganization org # evs) = org # createdOrganizations evs"
| "createdOrganizations (ev # evs) = createdOrganizations evs"

fun restoredEntries :: "event list \<Rightarrow> ManifestEntry list" where
  "restoredEntries [] = []"
| "restoredEntries (RemoteRestoreShard i file # evs) = file # restoredEntries evs"
| "restoredEntries (ev # evs) = restoredEntries evs"

fun afterCreate :: "world \<Rightarrow> Bucket \<Rightarrow> event \<Rightarrow> bool" where
  "afterCreate w bkt (LocalDatabase s) = (s = IDString w (bkt_ID bkt))"
| "afterCreate w bkt (RemoteRestoreBucket i buf) = True"
| "afterCreate w bkt (RemoteRestoreShard i file) = (BucketID file = IDString w (bkt_ID bkt))"
| "afterCreate w bkt (Warn s bid fn) = (bid = IDString w (bkt_ID bkt))"
| "afterCreate w bkt ev = False"

definition bucketLoopEvent :: "world \<Rightarrow> cmdRestoreBuilder \<Rightarrow> ID \<Rightarrow> Bucket list \<Rightarrow> event \<Rightarrow> bool" where
  "bucketLoopEvent w b newOrgID bkts ev =
     (\<exists>bkt\<in>set bkts. \<not> isInternal bkt
        \<and> (ev = RemoteCreateBucket (targetBucket b newOrgID bkt) \<or> afterCreate w bkt ev))"

text \<open>
  The organization as \<^verbatim>\<open>restoreOrganization\<close> looks it up and creates it, and the
  filter of the lookup.
\<close>

definition targetOrganization :: "cmdRestoreBuilder \<Rightarrow> Organization \<Rightarrow> Organization" where
  "targetOrganization b org = (if newOrgName b \<noteq> [] then org\<lparr>org_Name := newOrgName b\<rparr> else org)"

definition lookupFilter :: "cmdRestoreBuilder \<Rightarrow> Organization \<Rightarrow> OrganizationFilter" where
  "lookupFilter b org = \<lparr>of_Name = Some (org_Name (targetOrganization b org)), of_ID = None\<rparr>"


fun organizationsRestored ::
  "world \<Rightarrow> metastore \<Rightarrow> cmdRestoreBuilder \<Rightarrow> Organization list \<Rightarrow> event list \<Rightarrow> event list
     \<Rightarrow> bool" where
  "organizationsRestored w store b [] tr tr' = (tr' = tr)"
| "organizationsRestored w store b (org # orgs) tr tr' =
     (case restoreOrganization w store b org tr of
        (Some err, tr1) \<Rightarrow> False
      | (None, tr1) \<Rightarrow> organizationsRestored w store b orgs tr1 tr')"

definition partialRunReaches ::
  "world \<Rightarrow> cmdRestoreBuilder \<Rightarrow> cmdRestoreBuilder \<Rightarrow> metastore
     \<Rightarrow> Organization list \<Rightarrow> Organization \<Rightarrow> Organization list \<Rightarrow> event list \<Rightarrow> bool" where
  "partialRunReaches w b0 b store before org after tr =
     (NewLogger w = None
      \<and> \<not> (newOrgName b0 \<noteq> [] \<and> org_id b0 = [] \<and> org_name b0 = [])
      \<and> \<not> (newBucketName b0 \<noteq> [] \<and> bucketID b0 = [] \<and> bucketName b0 = [])
      \<and> loadIncremental (disk w) b0 = (None, b)
      \<and> newHTTPClient w = None
      \<and> \<not> full b
      \<and> (case kvEntry b of
            None \<Rightarrow> False
          | Some kv \<Rightarrow> boltOpen w (Join (disk w) (path b) (FileName_kv kv)) = Inr store)
      \<and> metaOpen store = None
      \<and> (case organizationFilter w b of
            Inl err \<Rightarrow> False
          | Inr flt \<Rightarrow>
              FindOrganizations store flt = Inr (before @ org # after)
              \<and> organizationsRestored w store b before
                    [ReadBackupDir (path b0), LocalFindOrganizations flt] tr))"

section \<open>A backup directory with two manifests\<close>

text \<open>
  The directory \<^verbatim>\<open>d\<close> holds the manifest of January 1st, with a snapshot of the
  metadata store and shard 7 modified at 1, and the manifest of January 2nd, with shard 7
  modified at 2 and shard 9, whose archive is not on the disk. The metadata snapshot of
  the second manifest is a parameter: \<open>noKV\<close> is the zero value that a manifest
  without a snapshot unmarshals to, \<open>missingKV\<close> names a file that is not on the disk.
\<close>

definition exampleJoin :: "string \<Rightarrow> string \<Rightarrow> string" where
  "exampleJoin dir name = (if name = [] then dir else dir @ ''/'' @ name)"

definition manifest0101 :: Manifest where
  "manifest0101 =
     \<lparr>KV = \<lparr>FileName_kv = ''0101.bolt'', LastModified_kv = 1\<rparr>,
      Files = [\<lparr>ShardID = 7, BucketID = ''b1'', FileName = ''0101.s7'', LastModified = 1\<rparr>]\<rparr>"

definition manifest0102 :: "ManifestKVEntry \<Rightarrow> Manifest" where
  "manifest0102 kv =
     \<lparr>KV = kv,
      Files = [\<lparr>ShardID = 7, BucketID = ''b1'', FileName = ''0102.s7'', LastModified = 2\<rparr>,
               \<lparr>ShardID = 9, BucketID = ''b1'', FileName = ''0102.s9'', LastModified = 2\<rparr>]\<rparr>"

definition exampleDisk :: "ManifestKVEntry \<Rightarrow> filesystem" where
  "exampleDisk kv =
     \<lparr>Glob = (\<lambda>pattern. Inr [''d/0101.manifest'', ''d/0102.manifest'']),
      Join = exampleJoin,
      Stat = (\<lambda>p. if p = ''d'' then Inr (FileInfo True)
                   else if p \<in> set [''d/0101.manifest'', ''d/0102.manifest'', ''d/0101.bolt'',
                                     ''d/0101.s7'', ''d/0102.s7'']
                   then Inr (FileInfo False)
                   else Inl (External ''ENOENT'' p)),
      ReadFile = (\<lambda>p. if p = ''d/0101.manifest'' then Inr ''0101''
                       else if p = ''d/0102.manifest'' then Inr ''0102''
                       else Inl (External ''ENOENT'' p)),
      Unmarshal = (\<lambda>buf. if buf = ''0101'' then Inr manifest0101
                          else if buf = ''0102'' then Inr (manifest0102 kv)
                          else Inl (External ''json'' buf)),
      Open = (\<lambda>p. None),
      NewReader = (\<lambda>p. None)\<rparr>"

definition noKV :: ManifestKVEntry where
  "noKV = \<lparr>FileName_kv = [], LastModified_kv = 0\<rparr>"

definition missingKV :: ManifestKVEntry where
  "missingKV = \<lparr>FileName_kv = ''0102.bolt'', LastModified_kv = 2\<rparr>"

definition entry0102_s7 :: ManifestEntry where
  "entry0102_s7 = \<lparr>ShardID = 7, BucketID = ''b1'', FileName = ''0102.s7'', LastModified = 2\<rparr>"

definition exampleBuilder :: cmdRestoreBuilder where
  "exampleBuilder = newCmdRestoreBuilder\<lparr>path := ''d''\<rparr>"

text \<open>
  A builder after \<^verbatim>\<open>loadIncremental\<close>, with three shards of the bucket \<^verbatim>\<open>b1\<close>, and
  a world around it: a server that refuses the shard ids in \<open>failing\<close>, knows the
  organization \<^verbatim>\<open>existing\<close>, refuses the bucket name \<^verbatim>\<open>taken\<close> and maps the
  shards 7 and 9 of a restored bucket; a store with one organization, an internal bucket
  and the bucket \<^verbatim>\<open>data\<close>; a map that is visited in the order 7, 8, 9.
\<close>

definition entry0102_s8 :: ManifestEntry where
  "entry0102_s8 = \<lparr>ShardID = 8, BucketID = ''b1'', FileName = ''0102.s8'', LastModified = 2\<rparr>"

definition entry0102_s9 :: ManifestEntry where
  "entry0102_s9 = \<lparr>ShardID = 9, BucketID = ''b1'', FileName = ''0102.s9'', LastModified = 2\<rparr>"

definition restoreBuilder :: cmdRestoreBuilder where
  "restoreBuilder =
     newCmdRestoreBuilder
       \<lparr>path := ''d'',
        kvEntry := Some \<lparr>FileName_kv = ''0101.bolt'', LastModified_kv = 1\<rparr>,
        shardEntries := [7 \<mapsto> entry0102_s7, 8 \<mapsto> entry0102_s8, 9 \<mapsto> entry0102_s9]\<rparr>"

definition exampleServer :: "uint64 list \<Rightarrow> remote" where
  "exampleServer failing =
     \<lparr>RestoreKVStore = (\<lambda>tr f. None),
      FindOrganization =
        (\<lambda>tr flt. if of_Name flt = Some ''existing'' then Inr \<lparr>org_ID = 50, org_Name = ''existing''\<rparr>
                    else if of_Name flt = Some ''broken'' then Inl (External ''unavailable'' [])
                    else Inl (External ENotFound [])),
      CreateOrganization = (\<lambda>tr org. Inr (org\<lparr>org_ID := 60\<rparr>)),
      CreateBucket =
        (\<lambda>tr bkt. if bkt_Name bkt = ''taken'' then Inl (External ''conflict'' ''taken'')
                    else Inr (bkt\<lparr>bkt_ID := 70\<rparr>)),
      RestoreBucket = (\<lambda>tr i buf. Inr [7 \<mapsto> 107, 9 \<mapsto> 109]),
      RestoreShard = (\<lambda>tr i f. if i \<in> set failing then Some (External ''unavailable'' f) else None)\<rparr>"

definition exampleStore :: metastore where
  "exampleStore =
     \<lparr>metaOpen = None,
      FindOrganizations = (\<lambda>flt. Inr [\<lparr>org_ID = 10, org_Name = ''org''\<rparr>]),
      FindBuckets =
        (\<lambda>flt. Inr [\<lparr>bkt_ID = 2, bkt_OrgID = 10, bkt_Name = ''_monitoring''\<rparr>,
                      \<lparr>bkt_ID = 1, bkt_OrgID = 10, bkt_Name = ''data''\<rparr>]),
      Database = (\<lambda>s. if s = ''b1'' then Some ''dbi-b1''
                       else if s = ''b2'' then Some ''dbi-b2'' else None),
      MarshalBinary = (\<lambda>dbi. Inr dbi)\<rparr>"

definition exampleWorld :: "uint64 list \<Rightarrow> world" where
  "exampleWorld failing =
     \<lparr>disk = exampleDisk noKV,
      boltOpen = (\<lambda>p. if p = ''d/0101.bolt'' then Inr exampleStore else Inl (External ''ENOENT'' p)),
      server = exampleServer failing,
      IDFromString = (\<lambda>s. if s = ''b1'' then Inr 1 else if s = ''b2'' then Inr 2
                            else if s = ''o1'' then Inr 10 else Inl (External ''invalid'' s)),
      IDString = (\<lambda>i. if i = 1 then ''b1'' else if i = 2 then ''b2''
                        else if i = 10 then ''o1'' else ''other''),
      NewLogger = None,
      newHTTPClient = None,
      mapOrder = (\<lambda>tr. [7, 8, 9])\<rparr>"

text \<open>The organization and the bucket of the backup, and the filters of the run.\<close>

definition exampleOrg :: Organization where
  "exampleOrg = \<lparr>org_ID = 10, org_Name = ''org''\<rparr>"

definition dataBucket :: Bucket where
  "dataBucket = \<lparr>bkt_ID = 1, bkt_OrgID = 60, bkt_Name = ''data''\<rparr>"

definition exampleLookup :: "string \<Rightarrow> event" where
  "exampleLookup name = RemoteFindOrganization \<lparr>of_Name = Some name, of_ID = None\<rparr>"

definition exampleBucketFilter :: BucketFilter where
  "exampleBucketFilter = \<lparr>bf_ID = None, bf_Name = None, bf_OrganizationID = Some 10\<rparr>"

text \<open>
  A world for the full restore where the snapshot does not open or the replace-metadata
  call fails. A world for a whole run of the partial restore: the second manifest names
  the snapshot of the first, the store holds two organizations and, in the first, an
  internal bucket and the buckets \<^verbatim>\<open>data\<close> and \<^verbatim>\<open>logs\<close>, and the server refuses
  one bucket name; the builder before and after \<^verbatim>\<open>loadIncremental\<close>, and the traces
  of the run.
\<close>

definition exampleFullWorld :: "error option \<Rightarrow> error option \<Rightarrow> world" where
  "exampleFullWorld openErr kvErr =
     (exampleWorld [])
       \<lparr>disk := (exampleDisk noKV)\<lparr>Open := (\<lambda>p. if p = ''d/0101.bolt'' then openErr else None)\<rparr>,
        server := (exampleServer [])\<lparr>RestoreKVStore := (\<lambda>tr f. kvErr)\<rparr>\<rparr>"

definition secondOrg :: Organization where
  "secondOrg = \<lparr>org_ID = 11, org_Name = ''second''\<rparr>"

definition runStore :: metastore where
  "runStore =
     \<lparr>metaOpen = None,
      FindOrganizations = (\<lambda>flt. Inr [exampleOrg, secondOrg]),
      FindBuckets =
        (\<lambda>flt. if bf_OrganizationID flt = Some 10
                 then Inr [\<lparr>bkt_ID = 2, bkt_OrgID = 10, bkt_Name = ''_monitoring''\<rparr>,
                           \<lparr>bkt_ID = 1, bkt_OrgID = 10, bkt_Name = ''data''\<rparr>,
                           \<lparr>bkt_ID = 3, bkt_OrgID = 10, bkt_Name = ''logs''\<rparr>]
                 else Inr []),
      Database = (\<lambda>s. if s = ''b1'' then Some ''dbi-b1''
                       else if s = ''other'' then Some ''dbi-other'' else None),
      MarshalBinary = (\<lambda>dbi. Inr dbi)\<rparr>"

definition runWorld :: "string \<Rightarrow> world" where
  "runWorld refused =
     (exampleWorld [])
       \<lparr>disk := exampleDisk (KV manifest0101),
        boltOpen := (\<lambda>p. if p = ''d/0101.bolt'' then Inr runStore else Inl (External ''ENOENT'' p)),
        server := (exampleServer [])
          \<lparr>CreateBucket :=
             (\<lambda>tr bkt. if bkt_Name bkt = refused then Inl (External ''conflict'' refused)
                         else Inr (bkt\<lparr>bkt_ID := 70\<rparr>))\<rparr>\<rparr>"

definition runBuilder :: "string \<Rightarrow> cmdRestoreBuilder" where
  "runBuilder newOrg = exampleBuilder\<lparr>org_name := ''org'', newOrgName := newOrg\<rparr>"

definition runLoaded :: "string \<Rightarrow> cmdRestoreBuilder" where
  "runLoaded newOrg =
     (runBuilder newOrg)\<lparr>kvEntry := Some (KV manifest0101), shardEntries := [7 \<mapsto> entry0102_s7]\<rparr>"

definition runTrace :: "event list" where
  "runTrace = [ReadBackupDir ''d'', LocalFindOrganizations \<lparr>of_Name = Some ''org'', of_ID = None\<rparr>]"





section \<open>Properties of loadIncremental\<close>

lemma loadFiles_fold:
  "loadFiles fs p shs m = fold (\<lambda>sh m. keepLatest m sh) (filter (present fs p) shs) m"
  by (induction shs arbitrary: m) (auto simp: present_def split: sum.splits)

lemma loadManifests_ok_iff:
  "fst (loadManifests fs ms b) = None \<longleftrightarrow> (\<forall>n\<in>set ms. isDirectory fs n \<or> parsed fs n \<noteq> None)"
  by (induction ms arbitrary: b) (auto simp: isDirectory_def parsed_def split: sum.splits)

lemma loadManifests_shardEntries:
  "fst (loadManifests fs ms b) = None \<Longrightarrow>
   shardEntries (snd (loadManifests fs ms b)) =
     fold (\<lambda>sh m. keepLatest m sh) (candidates fs (path b) ms) (shardEntries b)"
proof (induction ms arbitrary: b)
  case Nil
  then show ?case by (simp add: candidates_def)
next
  case (Cons n ms)
  show ?case
  proof (cases "parsed fs n")
    case None
    then have "isDirectory fs n" using Cons.prems loadManifests_ok_iff [of fs "n # ms" b] by simp
    then have step: "loadManifests fs (n # ms) b = loadManifests fs ms b"
      by (auto simp: isDirectory_def split: sum.splits)
    have "candidates fs (path b) (n # ms) = candidates fs (path b) ms"
      using None by (simp add: candidates_def)
    then show ?thesis using Cons.IH [of b] Cons.prems step by simp
  next
    case (Some manifest)
    let ?b = "b\<lparr>kvEntry := (case kvEntry b of None \<Rightarrow> Some (KV manifest) | Some kv \<Rightarrow> Some kv),
                 shardEntries := loadFiles fs (path b) (Files manifest) (shardEntries b)\<rparr>"
    have step: "loadManifests fs (n # ms) b = loadManifests fs ms ?b"
      using Some by (auto simp: parsed_def split: sum.splits if_splits)
    have c: "candidates fs (path b) (n # ms) =
               filter (present fs (path b)) (Files manifest) @ candidates fs (path b) ms"
      using Some by (simp add: candidates_def)
    have "fst (loadManifests fs ms ?b) = None" using Cons.prems step by simp
    from Cons.IH [OF this] show ?thesis
      by (simp add: step c loadFiles_fold del: loadManifests.simps)
  qed
qed

lemma keepLatest_other: "ShardID sh \<noteq> s \<Longrightarrow> keepLatest m sh s = m s"
  by (simp add: keepLatest_def split: option.splits)

lemma keepLatest_same:
  "keepLatest m sh (ShardID sh) =
     (case m (ShardID sh) of None \<Rightarrow> Some sh
      | Some k \<Rightarrow> Some (if LastModified k < LastModified sh then sh else k))"
  by (simp add: keepLatest_def split: option.splits)

lemma fold_keepLatest_greatest:
  assumes "\<forall>e'\<in>set xs. ShardID e' = ShardID e \<longrightarrow> e' = e \<or> LastModified e' < LastModified e"
    and "m (ShardID e) = None \<or> (\<exists>k. m (ShardID e) = Some k \<and> (k = e \<or> LastModified k < LastModified e))"
    and "e \<in> set xs \<or> m (ShardID e) = Some e"
  shows "fold (\<lambda>sh m. keepLatest m sh) xs m (ShardID e) = Some e"
  using assms
proof (induction xs arbitrary: m)
  case Nil
  then show ?case by simp
next
  case (Cons x xs)
  let ?m = "keepLatest m x"
  have dom: "\<forall>e'\<in>set xs. ShardID e' = ShardID e \<longrightarrow> e' = e \<or> LastModified e' < LastModified e"
    using Cons.prems(1) by simp
  show ?case
  proof (cases "ShardID x = ShardID e")
    case False
    then have same: "?m (ShardID e) = m (ShardID e)" by (simp add: keepLatest_other)
    have "e \<in> set xs \<or> ?m (ShardID e) = Some e"
      using Cons.prems(3) False same by auto
    with Cons.IH [of ?m] dom Cons.prems(2) same show ?thesis by simp
  next
    case True
    have x: "x = e \<or> LastModified x < LastModified e" using Cons.prems(1) True by simp
    have inv: "?m (ShardID e) = None \<or> (\<exists>k. ?m (ShardID e) = Some k \<and> (k = e \<or> LastModified k < LastModified e))"
      using Cons.prems(2) x keepLatest_same [of m x] True
      by (auto split: option.splits if_splits)
    have reach: "e \<in> set xs \<or> ?m (ShardID e) = Some e"
      using Cons.prems(2,3) x keepLatest_same [of m x] True
      by (auto split: option.splits if_splits)
    from Cons.IH [of ?m, OF dom inv reach] show ?thesis by simp
  qed
qed

lemma set_candidates: "set ms' = set ms \<Longrightarrow> set (candidates fs p ms') = set (candidates fs p ms)"
  by (auto simp: candidates_def)

lemma loadManifests_kvEntry_kept:
  "kvEntry b = Some kv \<Longrightarrow> kvEntry (snd (loadManifests fs ms b)) = Some kv"
  by (induction ms arbitrary: b) (auto split: sum.splits)

lemma loadManifests_skip_directories:
  "\<forall>d\<in>set ds. isDirectory fs d \<Longrightarrow> loadManifests fs (ds @ ms) b = loadManifests fs ms b"
  by (induction ds) (auto simp: isDirectory_def split: sum.splits)

lemma loadFiles_present:
  "(\<forall>s e. m s = Some e \<longrightarrow> present fs p e) \<Longrightarrow> loadFiles fs p shs m s = Some e \<Longrightarrow> present fs p e"
proof (induction shs arbitrary: m)
  case Nil
  then show ?case by simp
next
  case (Cons sh shs)
  show ?case
  proof (cases "present fs p sh")
    case False
    then have "loadFiles fs p (sh # shs) m = loadFiles fs p shs m"
      by (auto simp: present_def split: sum.splits)
    with Cons show ?thesis by simp
  next
    case True
    then have step: "loadFiles fs p (sh # shs) m = loadFiles fs p shs (keepLatest m sh)"
      by (auto simp: present_def split: sum.splits)
    have "\<forall>s e. keepLatest m sh s = Some e \<longrightarrow> present fs p e"
      using Cons.prems(1) True by (auto simp: keepLatest_def split: option.splits if_splits)
    from Cons.IH [OF this] Cons.prems(2) step show ?thesis by simp
  qed
qed

lemma loadManifests_present:
  "(\<forall>s e. shardEntries b s = Some e \<longrightarrow> present fs (path b) e) \<Longrightarrow>
   shardEntries (snd (loadManifests fs ms b)) s = Some e \<Longrightarrow> present fs (path b) e"
proof (induction ms arbitrary: b)
  case Nil
  then show ?case by simp
next
  case (Cons n ms)
  show ?case
  proof (cases "parsed fs n")
    case None
    then have "loadManifests fs (n # ms) b = loadManifests fs ms b \<or> snd (loadManifests fs (n # ms) b) = b"
      by (auto simp: parsed_def split: sum.splits if_splits)
    with Cons show ?thesis by auto
  next
    case (Some manifest)
    let ?b = "b\<lparr>kvEntry := (case kvEntry b of None \<Rightarrow> Some (KV manifest) | Some kv \<Rightarrow> Some kv),
                 shardEntries := loadFiles fs (path b) (Files manifest) (shardEntries b)\<rparr>"
    have step: "loadManifests fs (n # ms) b = loadManifests fs ms ?b"
      using Some by (auto simp: parsed_def split: sum.splits if_splits)
    have "\<forall>s e. shardEntries ?b s = Some e \<longrightarrow> present fs (path ?b) e"
      using loadFiles_present [OF Cons.prems(1)] by simp
    from Cons.IH [OF this] Cons.prems(2) show ?thesis
      by (simp add: step del: loadManifests.simps)
  qed
qed

lemma loadFiles_filter: "loadFiles fs p (filter (present fs p) shs) m = loadFiles fs p shs m"
  by (simp add: loadFiles_fold)

lemmas example_defs =
  exampleDisk_def exampleJoin_def manifest0101_def manifest0102_def exampleBuilder_def
  newCmdRestoreBuilder_def noKV_def missingKV_def entry0102_s7_def

lemmas example_world_defs =
  exampleWorld_def exampleServer_def exampleStore_def restoreBuilder_def
  entry0102_s8_def entry0102_s9_def dataBucket_def exampleOrg_def

text \<open>
  C1: among the shard descriptors whose archive is on the disk, when one descriptor of a
  shard id was modified after every other descriptor of that id, \<^verbatim>\<open>loadIncremental\<close>
  maps the shard id to it; the loop over the manifests gives the same entry whatever the
  order of the manifest files; and a descriptor replaces the kept entry of its shard id
  only when it was modified strictly after it.
\<close>

theorem loadIncremental_keeps_greatest:
  assumes "Glob fs (Join fs (path b) ''*.manifest'') = Inr ms"
    and "fst (loadIncremental fs b) = None"
    and "e \<in> set (candidates fs (path b) ms)"
    and "\<forall>e'\<in>set (candidates fs (path b) ms).
           ShardID e' = ShardID e \<longrightarrow> e' = e \<or> LastModified e' < LastModified e"
  shows "shardEntries (snd (loadIncremental fs b)) (ShardID e) = Some e
       \<and> (\<forall>ms'. set ms' = set ms \<longrightarrow>
             fst (loadManifests fs ms' (b\<lparr>shardEntries := Map.empty\<rparr>)) = None
           \<and> shardEntries (snd (loadManifests fs ms' (b\<lparr>shardEntries := Map.empty\<rparr>))) (ShardID e) = Some e)
       \<and> (\<forall>m sh kept. m (ShardID sh) = Some kept \<longrightarrow>
             keepLatest m sh =
               (if LastModified kept < LastModified sh then m(ShardID sh \<mapsto> sh) else m))"
proof -
  let ?b = "b\<lparr>shardEntries := Map.empty\<rparr>"
  have ne: "ms \<noteq> []" using assms(3) by (auto simp: candidates_def)
  then have li: "loadIncremental fs b = loadManifests fs (rev (sort ms)) ?b"
    using assms(1) by (simp add: loadIncremental_def)
  have any: "fst (loadManifests fs ms' ?b) = None
           \<and> shardEntries (snd (loadManifests fs ms' ?b)) (ShardID e) = Some e"
    if eq: "set ms' = set ms" for ms'
  proof -
    have "fst (loadManifests fs (rev (sort ms)) ?b) = None" using assms(2) li by simp
    then have ok: "fst (loadManifests fs ms' ?b) = None"
      using eq by (simp add: loadManifests_ok_iff)
    have c: "set (candidates fs (path ?b) ms') = set (candidates fs (path b) ms)"
      using set_candidates [OF eq] by simp
    have "fold (\<lambda>sh m. keepLatest m sh) (candidates fs (path ?b) ms') (shardEntries ?b) (ShardID e) = Some e"
      by (rule fold_keepLatest_greatest) (use assms(3,4) c in auto)
    with loadManifests_shardEntries [OF ok] ok show ?thesis by simp
  qed
  have "set (rev (sort ms)) = set ms" by simp
  from any [OF this] li have first: "shardEntries (snd (loadIncremental fs b)) (ShardID e) = Some e"
    by simp
  have step: "keepLatest m sh = (if LastModified kept < LastModified sh then m(ShardID sh \<mapsto> sh) else m)"
    if "m (ShardID sh) = Some kept" for m sh kept
    using that by (simp add: keepLatest_def)
  from first any step show ?thesis by blast
qed

theorem loadIncremental_keeps_greatest_witness:
  "fst (loadIncremental (exampleDisk noKV) exampleBuilder) = None
   \<and> entry0102_s7 \<in> set (candidates (exampleDisk noKV) ''d'' [''d/0101.manifest'', ''d/0102.manifest''])
   \<and> shardEntries (snd (loadIncremental (exampleDisk noKV) exampleBuilder)) 7 = Some entry0102_s7
   \<and> shardEntries (snd (loadManifests (exampleDisk noKV) [''d/0101.manifest'', ''d/0102.manifest'']
        (exampleBuilder\<lparr>shardEntries := Map.empty\<rparr>))) 7 = Some entry0102_s7"
proof -
  let ?ms = "[''d/0101.manifest'', ''d/0102.manifest'']"
  have p: "path exampleBuilder = ''d''" by (simp add: example_defs)
  have g: "Glob (exampleDisk noKV) (Join (exampleDisk noKV) (path exampleBuilder) ''*.manifest'') = Inr ?ms"
    by (simp add: example_defs)
  have ok: "fst (loadIncremental (exampleDisk noKV) exampleBuilder) = None"
    by (simp add: loadIncremental_def example_defs)
  have c: "candidates (exampleDisk noKV) ''d'' ?ms =
             [\<lparr>ShardID = 7, BucketID = ''b1'', FileName = ''0101.s7'', LastModified = 1\<rparr>, entry0102_s7]"
    by (simp add: candidates_def parsed_def present_def example_defs)
  have mem: "entry0102_s7 \<in> set (candidates (exampleDisk noKV) (path exampleBuilder) ?ms)"
    by (simp add: c p)
  have dom: "\<forall>e'\<in>set (candidates (exampleDisk noKV) (path exampleBuilder) ?ms).
               ShardID e' = ShardID entry0102_s7 \<longrightarrow>
               e' = entry0102_s7 \<or> LastModified e' < LastModified entry0102_s7"
    by (simp add: c p) (simp add: entry0102_s7_def)
  have s: "ShardID entry0102_s7 = 7" by (simp add: entry0102_s7_def)
  note th = loadIncremental_keeps_greatest [OF g ok mem dom]
  have a: "shardEntries (snd (loadIncremental (exampleDisk noKV) exampleBuilder)) 7 = Some entry0102_s7"
    using th [THEN conjunct1] by (simp only: s)
  have b: "shardEntries (snd (loadManifests (exampleDisk noKV) ?ms
             (exampleBuilder\<lparr>shardEntries := Map.empty\<rparr>))) 7 = Some entry0102_s7"
    using th [THEN conjunct2, THEN conjunct1, rule_format, of ?ms, THEN conjunct2]
    by (simp only: s)
  from ok mem a b show ?thesis by (simp only: p simp_thms)
qed

text \<open>
  C2, as the code has it: the selected metadata snapshot is the \<^verbatim>\<open>KV\<close> descriptor of
  the first manifest, in descending order of file names, that is not a directory; the
  descriptor is taken as it is, whether or not it names a snapshot that exists.
\<close>

theorem loadIncremental_kvEntry_first_manifest:
  assumes "kvEntry b = None"
    and "Glob fs (Join fs (path b) ''*.manifest'') = Inr ms"
    and "rev (sort ms) = ds @ filename # rest"
    and "\<forall>d\<in>set ds. isDirectory fs d"
    and "parsed fs filename = Some manifest"
  shows "kvEntry (snd (loadIncremental fs b)) = Some (KV manifest)"
proof -
  let ?b = "b\<lparr>shardEntries := Map.empty\<rparr>"
  let ?b' = "?b\<lparr>kvEntry := (case kvEntry ?b of None \<Rightarrow> Some (KV manifest) | Some kv \<Rightarrow> Some kv),
                 shardEntries := loadFiles fs (path ?b) (Files manifest) (shardEntries ?b)\<rparr>"
  have "ms \<noteq> []" using assms(3) by auto
  then have "loadIncremental fs b = loadManifests fs (ds @ filename # rest) ?b"
    using assms(2,3) by (simp add: loadIncremental_def)
  also have "\<dots> = loadManifests fs (filename # rest) ?b"
    by (rule loadManifests_skip_directories [OF assms(4)])
  also have "\<dots> = loadManifests fs rest ?b'"
    using assms(5) by (auto simp: parsed_def split: sum.splits if_splits)
  finally have "loadIncremental fs b = loadManifests fs rest ?b'" .
  moreover have "kvEntry ?b' = Some (KV manifest)" using assms(1) by simp
  ultimately show ?thesis using loadManifests_kvEntry_kept by simp
qed

theorem loadIncremental_kvEntry_first_manifest_witness:
  "kvEntry exampleBuilder = None
   \<and> parsed (exampleDisk missingKV) ''d/0102.manifest'' = Some (manifest0102 missingKV)
   \<and> kvEntry (snd (loadIncremental (exampleDisk missingKV) exampleBuilder)) = Some missingKV"
proof -
  have k: "kvEntry exampleBuilder = None" by (simp add: example_defs)
  have g: "Glob (exampleDisk missingKV) (Join (exampleDisk missingKV) (path exampleBuilder) ''*.manifest'')
             = Inr [''d/0101.manifest'', ''d/0102.manifest'']"
    by (simp add: example_defs)
  have s: "rev (sort [''d/0101.manifest'', ''d/0102.manifest'']) = [] @ ''d/0102.manifest'' # [''d/0101.manifest'']"
    by simp
  have d: "\<forall>d\<in>set []. isDirectory (exampleDisk missingKV) d" by simp
  have p: "parsed (exampleDisk missingKV) ''d/0102.manifest'' = Some (manifest0102 missingKV)"
    by (simp add: parsed_def example_defs)
  from loadIncremental_kvEntry_first_manifest [OF k g s d p] k p show ?thesis
    by (simp add: manifest0102_def)
qed

text \<open>
  C2 as stated fails: the manifest of January 2nd comes first; with no snapshot in it, or
  with a snapshot that is not on the disk, its descriptor is selected and not the one of
  the manifest of January 1st, whose snapshot is on the disk.
\<close>

theorem loadIncremental_kvEntry_counterexample:
  "rev (sort [''d/0101.manifest'', ''d/0102.manifest'']) = [''d/0102.manifest'', ''d/0101.manifest'']
   \<and> parsed (exampleDisk noKV) ''d/0102.manifest'' = Some (manifest0102 noKV)
   \<and> parsed (exampleDisk noKV) ''d/0101.manifest'' = Some manifest0101
   \<and> Stat (exampleDisk noKV) (exampleJoin ''d'' (FileName_kv (KV manifest0101))) = Inr (FileInfo False)
   \<and> FileName_kv (KV (manifest0102 noKV)) = []
   \<and> loadIncremental (exampleDisk noKV) exampleBuilder =
       (None, exampleBuilder\<lparr>kvEntry := Some noKV,
                shardEntries := [7 \<mapsto> entry0102_s7]\<rparr>)
   \<and> kvEntry (snd (loadIncremental (exampleDisk noKV) exampleBuilder)) \<noteq> Some (KV manifest0101)
   \<and> parsed (exampleDisk missingKV) ''d/0102.manifest'' = Some (manifest0102 missingKV)
   \<and> parsed (exampleDisk missingKV) ''d/0101.manifest'' = Some manifest0101
   \<and> Stat (exampleDisk missingKV) (exampleJoin ''d'' (FileName_kv missingKV)) = Inl (External ''ENOENT'' ''d/0102.bolt'')
   \<and> kvEntry (snd (loadIncremental (exampleDisk missingKV) exampleBuilder)) = Some missingKV
   \<and> kvEntry (snd (loadIncremental (exampleDisk missingKV) exampleBuilder)) \<noteq> Some (KV manifest0101)"
  by (simp add: loadIncremental_def parsed_def keepLatest_def example_defs)

text \<open>
  C3: every entry of the map that \<^verbatim>\<open>loadIncremental\<close> builds has its archive on the
  disk, and the loop over the descriptors of a manifest does what it would do without
  the descriptors whose archive is missing.
\<close>

theorem loadIncremental_excludes_missing_files:
  assumes "shardEntries b = Map.empty"
  shows "(\<forall>s e. shardEntries (snd (loadIncremental fs b)) s = Some e \<longrightarrow> present fs (path b) e)
       \<and> (\<forall>shs m. loadFiles fs (path b) shs m = loadFiles fs (path b) (filter (present fs (path b)) shs) m)"
proof -
  have "present fs (path b) e" if "shardEntries (snd (loadIncremental fs b)) s = Some e" for s e
  proof (cases "Glob fs (Join fs (path b) ''*.manifest'')")
    case (Inl err)
    then show ?thesis using that assms by (simp add: loadIncremental_def)
  next
    case (Inr ms)
    show ?thesis
    proof (cases "ms = []")
      case True
      then show ?thesis using that assms Inr by (simp add: loadIncremental_def)
    next
      case False
      then have "shardEntries (snd (loadManifests fs (rev (sort ms)) (b\<lparr>shardEntries := Map.empty\<rparr>))) s = Some e"
        using that Inr by (simp add: loadIncremental_def)
      from loadManifests_present [OF _ this] show ?thesis by simp
    qed
  qed
  then show ?thesis by (simp add: loadFiles_filter)
qed

theorem loadIncremental_excludes_missing_files_witness:
  "shardEntries exampleBuilder = Map.empty
   \<and> \<not> present (exampleDisk noKV) ''d'' \<lparr>ShardID = 9, BucketID = ''b1'', FileName = ''0102.s9'', LastModified = 2\<rparr>
   \<and> shardEntries (snd (loadIncremental (exampleDisk noKV) exampleBuilder)) 9 = None
   \<and> shardEntries (snd (loadIncremental (exampleDisk noKV) exampleBuilder)) 7 = Some entry0102_s7
   \<and> present (exampleDisk noKV) ''d'' entry0102_s7"
proof -
  have e: "shardEntries exampleBuilder = Map.empty" by (simp add: example_defs)
  have p: "path exampleBuilder = ''d''" by (simp add: example_defs)
  have s7: "shardEntries (snd (loadIncremental (exampleDisk noKV) exampleBuilder)) 7 = Some entry0102_s7"
    by (simp add: loadIncremental_def keepLatest_def example_defs)
  have s9: "shardEntries (snd (loadIncremental (exampleDisk noKV) exampleBuilder)) 9 = None"
    by (simp add: loadIncremental_def keepLatest_def example_defs)
  have m: "\<not> present (exampleDisk noKV) ''d'' \<lparr>ShardID = 9, BucketID = ''b1'', FileName = ''0102.s9'', LastModified = 2\<rparr>"
    by (simp add: present_def example_defs)
  from loadIncremental_excludes_missing_files [OF e, of "exampleDisk noKV"] s7
  have "present (exampleDisk noKV) ''d'' entry0102_s7" by (simp add: p)
  with e m s9 s7 show ?thesis by simp
qed

section \<open>Properties of the command line and of restoreRunE\<close>

text \<open>
  C10: with no positional argument the check fails with the must-specify-path error, with
  more than one with the too-many-args error, and with exactly one the argument becomes
  the backup path, whatever the path was before (the value of the \<^verbatim>\<open>--input\<close> flag).
\<close>

theorem cmdRestore_Args_one_path:
  "cmdRestore_Args b [] = (Some MustSpecifyPath, b)
   \<and> (length args > 1 \<longrightarrow> cmdRestore_Args b args = (Some TooManyArgs, b))
   \<and> cmdRestore_Args (b\<lparr>path := input\<rparr>) [p] = (None, b\<lparr>path := p\<rparr>)"
  by (simp add: cmdRestore_Args_def)

theorem cmdRestore_Args_one_path_witness:
  "length [''a'', ''b''] > 1
   \<and> cmdRestore_Args exampleBuilder [''a'', ''b''] = (Some TooManyArgs, exampleBuilder)
   \<and> cmdRestore_Args (exampleBuilder\<lparr>path := ''from-input-flag''\<rparr>) [''d''] = (None, exampleBuilder\<lparr>path := ''d''\<rparr>)"
  using cmdRestore_Args_one_path [of exampleBuilder "[''a'', ''b'']" "''from-input-flag''" "''d''"]
  by simp

text \<open>
  C4: when a new organization name comes without a source organization id or name, or a
  new bucket name without a source bucket id or name, \<^verbatim>\<open>restoreRunE\<close> returns an error
  with an empty trace and the builder untouched: no manifest was loaded and no call was
  made; once the logger is built, the error is the configuration error.
\<close>

theorem restoreRunE_rename_needs_source:
  assumes "(newOrgName b \<noteq> [] \<and> org_id b = [] \<and> org_name b = [])
         \<or> (newBucketName b \<noteq> [] \<and> bucketID b = [] \<and> bucketName b = [])"
  shows "(NewLogger w = None \<longrightarrow>
            restoreRunE w b =
              (Some (if newOrgName b \<noteq> [] \<and> org_id b = [] \<and> org_name b = []
                     then MustSpecifySourceOrg else MustSpecifySourceBucket), b, []))
       \<and> (\<exists>err. restoreRunE w b = (Some err, b, []))"
  using assms by (auto simp: restoreRunE_def split: option.splits)

theorem restoreRunE_rename_needs_source_witness:
  "newOrgName (exampleBuilder\<lparr>newOrgName := ''renamed''\<rparr>) \<noteq> []
   \<and> org_id (exampleBuilder\<lparr>newOrgName := ''renamed''\<rparr>) = []
   \<and> org_name (exampleBuilder\<lparr>newOrgName := ''renamed''\<rparr>) = []
   \<and> NewLogger (exampleWorld []) = None
   \<and> restoreRunE (exampleWorld []) (exampleBuilder\<lparr>newOrgName := ''renamed''\<rparr>) =
       (Some MustSpecifySourceOrg, exampleBuilder\<lparr>newOrgName := ''renamed''\<rparr>, [])"
proof -
  let ?b = "exampleBuilder\<lparr>newOrgName := ''renamed''\<rparr>"
  have h: "newOrgName ?b \<noteq> [] \<and> org_id ?b = [] \<and> org_name ?b = []"
    by (simp add: example_defs)
  then have hyp: "(newOrgName ?b \<noteq> [] \<and> org_id ?b = [] \<and> org_name ?b = [])
                \<or> (newBucketName ?b \<noteq> [] \<and> bucketID ?b = [] \<and> bucketName ?b = [])"
    by (rule disjI1)
  have l: "NewLogger (exampleWorld []) = None" by (simp add: exampleWorld_def)
  from restoreRunE_rename_needs_source [OF hyp, of "exampleWorld []", THEN conjunct1, rule_format, OF l] h l
  show ?thesis by simp
qed

section \<open>Properties of restoreFull\<close>

lemma restoreShard_ok:
  "fst (restoreShard w b i file tr) = None \<Longrightarrow>
   snd (restoreShard w b i file tr) = tr @ [RemoteRestoreShard i file]"
  by (auto simp: restoreShard_def Let_def split: option.splits)

lemma restoreShard_trace:
  "snd (restoreShard w b i file tr) = tr \<or> snd (restoreShard w b i file tr) = tr @ [RemoteRestoreShard i file]"
  by (auto simp: restoreShard_def Let_def split: option.splits)

lemma transferOutcome_Suc:
  "transferOutcome w b tr (k # ks) (Suc j) = transferOutcome w b (tr @ [fullTransfer b k]) ks j"
  by (simp add: transferOutcome_def Let_def split: option.splits)

lemma transferOutcome_0:
  "shardEntries b k = Some sh \<Longrightarrow>
   restoreShard w b (ShardID sh) sh tr =
     (fst (transferOutcome w b tr (k # ks) 0),
      if snd (transferOutcome w b tr (k # ks) 0) then tr @ [fullTransfer b k] else tr)"
  by (simp add: transferOutcome_def restoreShard_def fullTransfer_def Let_def split: option.splits)

lemma transferOutcome_ok_called:
  "shardEntries b (ks ! j) = Some sh \<Longrightarrow> fst (transferOutcome w b tr ks j) = None \<Longrightarrow>
   snd (transferOutcome w b tr ks j)"
  by (simp add: transferOutcome_def Let_def split: option.splits)

lemma restoreFull_shards_all:
  assumes "set ks \<subseteq> dom (shardEntries b)"
    and "\<forall>j<length ks. fst (transferOutcome w b tr ks j) = None"
  shows "restoreFull_shards w b ks tr = (None, tr @ map (fullTransfer b) ks)"
  using assms
proof (induction ks arbitrary: tr)
  case Nil
  then show ?case by simp
next
  case (Cons k ks)
  then obtain sh where sh: "shardEntries b k = Some sh" by auto
  have z: "fst (transferOutcome w b tr (k # ks) 0) = None" using Cons.prems(2) by simp
  have c: "snd (transferOutcome w b tr (k # ks) 0)"
    using transferOutcome_ok_called [of b "k # ks" 0 sh w tr] sh z by simp
  have rs: "restoreShard w b (ShardID sh) sh tr = (None, tr @ [fullTransfer b k])"
    using transferOutcome_0 [OF sh, of w tr ks] z c by simp
  have "\<forall>j<length ks. fst (transferOutcome w b (tr @ [fullTransfer b k]) ks j) = None"
    using Cons.prems(2) transferOutcome_Suc [of w b tr k ks] by auto
  from Cons.IH [OF _ this] Cons.prems(1) sh rs show ?case by simp
qed

lemma restoreFull_shards_stop:
  assumes "set ks \<subseteq> dom (shardEntries b)"
    and "i < length ks"
    and "\<forall>j<i. fst (transferOutcome w b tr ks j) = None"
    and "fst (transferOutcome w b tr ks i) = Some err"
  shows "restoreFull_shards w b ks tr =
           (Some err, tr @ map (fullTransfer b) (take (if snd (transferOutcome w b tr ks i) then Suc i else i) ks))"
  using assms
proof (induction ks arbitrary: tr i)
  case Nil
  then show ?case by simp
next
  case (Cons k ks)
  then obtain sh where sh: "shardEntries b k = Some sh" by auto
  show ?case
  proof (cases i)
    case 0
    have "restoreShard w b (ShardID sh) sh tr =
            (Some err, if snd (transferOutcome w b tr (k # ks) 0) then tr @ [fullTransfer b k] else tr)"
      using transferOutcome_0 [OF sh, of w tr ks] Cons.prems(4) 0 by simp
    then show ?thesis using sh 0 by simp
  next
    case (Suc i')
    have z: "fst (transferOutcome w b tr (k # ks) 0) = None" using Cons.prems(3) Suc by simp
    have c: "snd (transferOutcome w b tr (k # ks) 0)"
      using transferOutcome_ok_called [of b "k # ks" 0 sh w tr] sh z by simp
    have rs: "restoreShard w b (ShardID sh) sh tr = (None, tr @ [fullTransfer b k])"
      using transferOutcome_0 [OF sh, of w tr ks] z c by simp
    let ?tr = "tr @ [fullTransfer b k]"
    have p: "\<forall>j<i'. fst (transferOutcome w b ?tr ks j) = None"
      using Cons.prems(3) Suc transferOutcome_Suc [of w b tr k ks] by auto
    have e: "fst (transferOutcome w b ?tr ks i') = Some err"
      using Cons.prems(4) Suc by (simp add: transferOutcome_Suc)
    have l: "i' < length ks" using Cons.prems(2) Suc by simp
    have s: "set ks \<subseteq> dom (shardEntries b)" using Cons.prems(1) by simp
    from Cons.IH [OF s l p e] sh rs Suc show ?thesis
      by (simp add: transferOutcome_Suc)
  qed
qed

lemma example_full_kv: "kvEntry restoreBuilder = Some \<lparr>FileName_kv = ''0101.bolt'', LastModified_kv = 1\<rparr>" by (simp add: example_world_defs)

lemma example_full_d: "set [7, 8, 9] = dom (shardEntries restoreBuilder)"
    by (simp add: example_world_defs insert_commute)

lemma example_outcome_ok:
  "i \<notin> set failing \<Longrightarrow> shardEntries restoreBuilder i = Some sh \<Longrightarrow> ShardID sh = i \<Longrightarrow> j < 3 \<Longrightarrow> [7, 8, 9] ! j = i \<Longrightarrow>
   transferOutcome (exampleWorld failing) restoreBuilder tr [7, 8, 9] j = (None, True)"
  by (simp add: transferOutcome_def exampleWorld_def exampleServer_def exampleDisk_def Let_def)

lemma example_shards:
  "shardEntries restoreBuilder 7 = Some entry0102_s7"
  "shardEntries restoreBuilder 8 = Some entry0102_s8"
  "shardEntries restoreBuilder 9 = Some entry0102_s9"
  "ShardID entry0102_s7 = 7" "ShardID entry0102_s8 = 8" "ShardID entry0102_s9 = 9"
  by (simp_all add: example_world_defs example_defs)

lemma example_transfers:
  "fullTransfer restoreBuilder 7 = RemoteRestoreShard 7 entry0102_s7"
  "fullTransfer restoreBuilder 8 = RemoteRestoreShard 8 entry0102_s8"
  "fullTransfer restoreBuilder 9 = RemoteRestoreShard 9 entry0102_s9"
  by (simp_all add: fullTransfer_def example_shards)

lemma less_3_cases: "j < (3::nat) \<Longrightarrow> j = 0 \<or> j = 1 \<or> j = 2"
  by arith

lemma example_all_ok:
  "\<forall>j<length [7, 8, 9 :: uint64]. fst (transferOutcome (exampleWorld []) restoreBuilder tr [7, 8, 9] j) = None"
proof (intro allI impI)
  fix j :: nat assume "j < length [7, 8, 9 :: uint64]"
  then have "j = 0 \<or> j = 1 \<or> j = 2" by (intro less_3_cases) simp
  then show "fst (transferOutcome (exampleWorld []) restoreBuilder tr [7, 8, 9] j) = None"
    using example_outcome_ok [of 7 "[]" entry0102_s7 0 tr]
          example_outcome_ok [of 8 "[]" entry0102_s8 1 tr]
          example_outcome_ok [of 9 "[]" entry0102_s9 2 tr]
    by (auto simp: example_shards)
qed

lemma example_stop_at_8:
  "\<forall>j<Suc 0. fst (transferOutcome (exampleWorld [8]) restoreBuilder tr [7, 8, 9] j) = None"
  "transferOutcome (exampleWorld [8]) restoreBuilder tr [7, 8, 9] (Suc 0) =
     (Some (External ''unavailable'' ''d/0102.s8''), True)"
  using example_outcome_ok [of 7 "[8]" entry0102_s7 0 tr]
  by (simp_all add: example_shards)
     (simp add: transferOutcome_def example_world_defs example_defs Let_def)

lemma example_full_world:
  "''d/0101.bolt'' = Join (disk (exampleWorld failing)) (path restoreBuilder)
                      (FileName_kv \<lparr>FileName_kv = ''0101.bolt'', LastModified_kv = 1\<rparr>)"
  "[7, 8, 9] = mapOrder (exampleWorld failing) [RemoteRestoreKVStore ''d/0101.bolt'']"
  "Open (disk (exampleWorld failing)) ''d/0101.bolt'' = None"
  "RestoreKVStore (server (exampleWorld failing)) [] ''d/0101.bolt'' = None"
  by (simp_all add: example_world_defs example_defs)

lemma example_full_broken:
  "''d/0101.bolt'' = Join (disk (exampleFullWorld openErr kvErr)) (path restoreBuilder)
                      (FileName_kv \<lparr>FileName_kv = ''0101.bolt'', LastModified_kv = 1\<rparr>)"
  "[7, 8, 9] = mapOrder (exampleFullWorld openErr kvErr) [RemoteRestoreKVStore ''d/0101.bolt'']"
  "Open (disk (exampleFullWorld openErr kvErr)) ''d/0101.bolt'' = openErr"
  "RestoreKVStore (server (exampleFullWorld openErr kvErr)) [] ''d/0101.bolt'' = kvErr"
  by (simp_all add: exampleFullWorld_def example_world_defs example_defs)

text \<open>
  C5: in a full restore, when the snapshot file does not open the error is returned and
  nothing is sent; when the replace-metadata call fails its error is returned with that
  call as the only event; otherwise that call comes first and the entries of the map
  follow in the order of the map, each under its own shard id: all of them, with nil
  returned, when the disk and the server accept every transfer, and, when the transfer
  of a key is the first to fail, the keys up to it and no other, with its error
  returned and the transfers made before it left in the trace.
\<close>

theorem restoreFull_metadata_then_shards:
  assumes "kvEntry b = Some kv"
    and "f = Join (disk w) (path b) (FileName_kv kv)"
    and "tr1 = tr @ [RemoteRestoreKVStore f]"
    and "keys = mapOrder w tr1"
    and "set keys = dom (shardEntries b)"
  shows "(\<forall>err. Open (disk w) f = Some err \<longrightarrow> restoreFull w b tr = (Some err, tr))
       \<and> (\<forall>err. Open (disk w) f = None \<and> RestoreKVStore (server w) tr f = Some err \<longrightarrow>
             restoreFull w b tr = (Some err, tr1))
       \<and> (Open (disk w) f = None \<and> RestoreKVStore (server w) tr f = None
           \<and> (\<forall>j<length keys. fst (transferOutcome w b tr1 keys j) = None) \<longrightarrow>
             restoreFull w b tr = (None, tr1 @ map (fullTransfer b) keys)
           \<and> (\<forall>k file. shardEntries b k = Some file \<longrightarrow>
                 RemoteRestoreShard (ShardID file) file \<in> set (snd (restoreFull w b tr))))
       \<and> (\<forall>i err. Open (disk w) f = None \<and> RestoreKVStore (server w) tr f = None
             \<and> i < length keys
             \<and> (\<forall>j<i. fst (transferOutcome w b tr1 keys j) = None)
             \<and> fst (transferOutcome w b tr1 keys i) = Some err \<longrightarrow>
             restoreFull w b tr =
               (Some err,
                tr1 @ map (fullTransfer b)
                        (take (if snd (transferOutcome w b tr1 keys i) then Suc i else i) keys)))
       \<and> (\<forall>k file. shardEntries b k = Some file \<longrightarrow>
             fullTransfer b k = RemoteRestoreShard (ShardID file) file)"
proof -
  have sub: "set keys \<subseteq> dom (shardEntries b)" using assms(5) by simp
  have op: "restoreFull w b tr = (Some err, tr)" if "Open (disk w) f = Some err" for err
    using that assms(1,2) by (simp add: restoreFull_def restoreKVStore_def Let_def)
  have kvs: "restoreKVStore w b tr = (RestoreKVStore (server w) tr f, tr1)" if "Open (disk w) f = None"
    using that assms(1,2,3) by (simp add: restoreKVStore_def Let_def)
  have kverr: "restoreFull w b tr = (Some err, tr1)"
    if "Open (disk w) f = None" "RestoreKVStore (server w) tr f = Some err" for err
    using that kvs by (simp add: restoreFull_def)
  have run: "restoreFull w b tr = restoreFull_shards w b keys tr1"
    if "Open (disk w) f = None" "RestoreKVStore (server w) tr f = None"
    using that kvs assms(4) by (simp add: restoreFull_def)
  have ev: "fullTransfer b k = RemoteRestoreShard (ShardID sh) sh" if "shardEntries b k = Some sh" for k sh
    using that by (simp add: fullTransfer_def)
  have ok: "restoreFull w b tr = (None, tr1 @ map (fullTransfer b) keys)
           \<and> (\<forall>k sh. shardEntries b k = Some sh \<longrightarrow>
                 RemoteRestoreShard (ShardID sh) sh \<in> set (snd (restoreFull w b tr)))"
    if h: "Open (disk w) f = None" "RestoreKVStore (server w) tr f = None"
          "\<forall>j<length keys. fst (transferOutcome w b tr1 keys j) = None"
  proof -
    have r: "restoreFull w b tr = (None, tr1 @ map (fullTransfer b) keys)"
      using run [OF h(1,2)] restoreFull_shards_all [OF sub h(3)] by simp
    have "RemoteRestoreShard (ShardID sh) sh \<in> set (snd (restoreFull w b tr))"
      if e: "shardEntries b k = Some sh" for k sh
    proof -
      have "k \<in> set keys" using e assms(5) by auto
      then have "fullTransfer b k \<in> set (snd (restoreFull w b tr))" by (simp add: r)
      then show ?thesis by (simp add: ev [OF e])
    qed
    with r show ?thesis by blast
  qed
  have stop: "restoreFull w b tr =
               (Some err,
                tr1 @ map (fullTransfer b)
                        (take (if snd (transferOutcome w b tr1 keys i) then Suc i else i) keys))"
    if h: "Open (disk w) f = None" "RestoreKVStore (server w) tr f = None" "i < length keys"
          "\<forall>j<i. fst (transferOutcome w b tr1 keys j) = None"
          "fst (transferOutcome w b tr1 keys i) = Some err" for i err
    using run [OF h(1,2)] restoreFull_shards_stop [OF sub h(3,4,5)] by simp
  from op kverr ok stop ev show ?thesis by blast
qed

theorem restoreFull_metadata_then_shards_witness:
  "kvEntry restoreBuilder = Some \<lparr>FileName_kv = ''0101.bolt'', LastModified_kv = 1\<rparr>
   \<and> set [7, 8, 9] = dom (shardEntries restoreBuilder)
   \<and> restoreFull (exampleWorld []) restoreBuilder [] =
       (None, [RemoteRestoreKVStore ''d/0101.bolt'', RemoteRestoreShard 7 entry0102_s7,
               RemoteRestoreShard 8 entry0102_s8, RemoteRestoreShard 9 entry0102_s9])
   \<and> restoreFull (exampleWorld [8]) restoreBuilder [] =
       (Some (External ''unavailable'' ''d/0102.s8''),
        [RemoteRestoreKVStore ''d/0101.bolt'', RemoteRestoreShard 7 entry0102_s7,
         RemoteRestoreShard 8 entry0102_s8])
   \<and> restoreFull (exampleFullWorld None (Some (External ''unavailable'' []))) restoreBuilder [] =
       (Some (External ''unavailable'' []), [RemoteRestoreKVStore ''d/0101.bolt''])
   \<and> restoreFull (exampleFullWorld (Some (External ''ENOENT'' [])) None) restoreBuilder [] =
       (Some (External ''ENOENT'' []), [])"
proof -
  let ?kv = "RemoteRestoreKVStore ''d/0101.bolt''"
  have tr1: "[?kv] = [] @ [?kv]" by simp
  note th = restoreFull_metadata_then_shards [OF example_full_kv _ tr1 _ example_full_d]
  have ok: "restoreFull (exampleWorld []) restoreBuilder [] =
              (None, [?kv] @ map (fullTransfer restoreBuilder) [7, 8, 9])"
    using th [OF example_full_world(1,2), THEN conjunct2, THEN conjunct2, THEN conjunct1]
          example_full_world(3,4) [of "[]"] example_all_ok [of "[?kv]"]
    by blast
  have stop: "restoreFull (exampleWorld [8]) restoreBuilder [] =
              (Some (External ''unavailable'' ''d/0102.s8''),
               [?kv] @ map (fullTransfer restoreBuilder)
                  (take (if snd (transferOutcome (exampleWorld [8]) restoreBuilder [?kv] [7, 8, 9] (Suc 0))
                         then Suc (Suc 0) else Suc 0) [7, 8, 9]))"
    by (rule th [OF example_full_world(1,2), THEN conjunct2, THEN conjunct2, THEN conjunct2,
                 THEN conjunct1, rule_format])
       (simp add: example_full_world(3,4) example_stop_at_8)
  have kverr: "restoreFull (exampleFullWorld None (Some (External ''unavailable'' []))) restoreBuilder [] =
       (Some (External ''unavailable'' []), [?kv])"
    by (rule th [OF example_full_broken(1,2), THEN conjunct2, THEN conjunct1, rule_format])
       (simp add: example_full_broken(3,4))
  have operr: "restoreFull (exampleFullWorld (Some (External ''ENOENT'' [])) None) restoreBuilder [] =
       (Some (External ''ENOENT'' []), [])"
    by (rule th [OF example_full_broken(1,2), THEN conjunct1, rule_format])
       (simp add: example_full_broken(3))
  from ok stop kverr operr example_full_kv example_full_d show ?thesis
    by (simp add: example_transfers example_stop_at_8(2))
qed

section \<open>Properties of restoreBucket\<close>

lemma restoreBucket_shards_mapped:
  assumes "\<forall>k\<in>set ks. ofBucket w b bkt k \<longrightarrow> \<not> unmapped b shardIDMap k"
    and "fst (restoreBucket_shards w b bkt shardIDMap ks tr) = None"
  shows "snd (restoreBucket_shards w b bkt shardIDMap ks tr) =
           tr @ map (partialTransfer b shardIDMap) (filter (ofBucket w b bkt) ks)
       \<and> restoreBucket_shards w b bkt shardIDMap (ks @ ks') tr =
           restoreBucket_shards w b bkt shardIDMap ks'
             (tr @ map (partialTransfer b shardIDMap) (filter (ofBucket w b bkt) ks))"
  using assms
proof (induction ks arbitrary: tr)
  case Nil
  then show ?case by simp
next
  case (Cons k ks)
  show ?case
  proof (cases "ofBucket w b bkt k")
    case False
    then have step: "restoreBucket_shards w b bkt shardIDMap (k # ks'') tr =
                     restoreBucket_shards w b bkt shardIDMap ks'' tr" for ks''
      by (auto simp: ofBucket_def split: option.splits)
    from Cons.IH [of tr] Cons.prems False step [of ks] step [of "ks @ ks'"]
    show ?thesis by (simp del: restoreBucket_shards.simps)
  next
    case True
    then obtain sh where sh: "shardEntries b k = Some sh" "BucketID sh = IDString w (bkt_ID bkt)"
      by (auto simp: ofBucket_def split: option.splits)
    from True Cons.prems(1) sh obtain newID where m: "shardIDMap (ShardID sh) = Some newID"
      by (auto simp: unmapped_def)
    have ev: "partialTransfer b shardIDMap k = RemoteRestoreShard newID sh"
      by (simp add: partialTransfer_def sh m)
    obtain r tr' where rs: "restoreShard w b newID sh tr = (r, tr')"
      by (cases "restoreShard w b newID sh tr")
    have r: "r = None" using Cons.prems(2) sh m rs by (cases r) auto
    then have tr': "tr' = tr @ [RemoteRestoreShard newID sh]"
      using restoreShard_ok [of w b newID sh tr] rs by simp
    have step: "restoreBucket_shards w b bkt shardIDMap (k # ks'') tr =
                restoreBucket_shards w b bkt shardIDMap ks'' tr'" for ks''
      using sh m rs r by simp
    have "fst (restoreBucket_shards w b bkt shardIDMap ks tr') = None"
      using Cons.prems(2) step [of ks] by (simp del: restoreBucket_shards.simps)
    from Cons.IH [OF _ this] Cons.prems(1) True step [of ks] step [of "ks @ ks'"] ev tr'
    show ?thesis by (simp del: restoreBucket_shards.simps)
  qed
qed

text \<open>
  C8: when the bucket is created, its database info found and serialized, the
  restore-bucket call answers with a map, and the first key of the bucket that the map
  does not hold comes after keys whose transfers went through, \<^verbatim>\<open>restoreBucket\<close>
  returns nil; its trace ends with the warning for that key, after the transfers of the
  keys before it: no key after it is tried.
\<close>

theorem restoreBucket_unmapped_shard_returns_nil:
  assumes "CreateBucket (server w) tr (renamedBucket b bkt) = Inr created"
    and "Database store (IDString w (bkt_ID bkt)) = Some dbi"
    and "MarshalBinary store dbi = Inr buf"
    and "tr2 = tr @ [RemoteCreateBucket (renamedBucket b bkt), LocalDatabase (IDString w (bkt_ID bkt))]"
    and "RestoreBucket (server w) tr2 (bkt_ID created) buf = Inr shardIDMap"
    and "tr3 = tr2 @ [RemoteRestoreBucket (bkt_ID created) buf]"
    and "mapOrder w tr3 = ks1 @ k # ks2"
    and "ofBucket w b bkt k \<and> unmapped b shardIDMap k"
    and "\<forall>k'\<in>set ks1. ofBucket w b bkt k' \<longrightarrow> \<not> unmapped b shardIDMap k'"
    and "fst (restoreBucket_shards w b bkt shardIDMap ks1 tr3) = None"
  shows "restoreBucket w store b bkt tr =
           (None, tr3 @ map (partialTransfer b shardIDMap) (filter (ofBucket w b bkt) ks1)
                      @ [partialTransfer b shardIDMap k])
       \<and> (\<exists>file. shardEntries b k = Some file
             \<and> partialTransfer b shardIDMap k = Warn (ShardID file) (BucketID file) (FileName file))
       \<and> (\<forall>k'\<in>set ks1. ofBucket w b bkt k' \<longrightarrow>
             (\<exists>file newID. shardEntries b k' = Some file \<and> shardIDMap (ShardID file) = Some newID
                \<and> partialTransfer b shardIDMap k' = RemoteRestoreShard newID file))"
proof -
  let ?tr' = "tr3 @ map (partialTransfer b shardIDMap) (filter (ofBucket w b bkt) ks1)"
  from assms(8) obtain sh where sh: "shardEntries b k = Some sh"
      "BucketID sh = IDString w (bkt_ID bkt)" "shardIDMap (ShardID sh) = None"
    by (auto simp: ofBucket_def unmapped_def split: option.splits)
  have w: "partialTransfer b shardIDMap k = Warn (ShardID sh) (BucketID sh) (FileName sh)"
    by (simp add: partialTransfer_def sh)
  have "restoreBucket w store b bkt tr = restoreBucket_shards w b bkt shardIDMap (ks1 @ k # ks2) tr3"
    using assms(1-7) by (simp add: restoreBucket_def renamedBucket_def Let_def)
  also have "\<dots> = restoreBucket_shards w b bkt shardIDMap (k # ks2) ?tr'"
    using restoreBucket_shards_mapped [OF assms(9,10)] by blast
  also have "\<dots> = (None, ?tr' @ [Warn (ShardID sh) (BucketID sh) (FileName sh)])"
    using sh by simp
  finally have res: "restoreBucket w store b bkt tr =
      (None, tr3 @ map (partialTransfer b shardIDMap) (filter (ofBucket w b bkt) ks1)
                 @ [partialTransfer b shardIDMap k])"
    by (simp add: w)
  have pre: "\<exists>file newID. shardEntries b k' = Some file \<and> shardIDMap (ShardID file) = Some newID
                \<and> partialTransfer b shardIDMap k' = RemoteRestoreShard newID file"
    if "k' \<in> set ks1" "ofBucket w b bkt k'" for k'
    using that assms(9) by (auto simp: ofBucket_def unmapped_def partialTransfer_def split: option.splits)
  from res w sh(1) pre show ?thesis by blast
qed

theorem restoreBucket_unmapped_shard_returns_nil_witness:
  "mapOrder (exampleWorld [])
     [RemoteCreateBucket dataBucket, LocalDatabase ''b1'', RemoteRestoreBucket 70 ''dbi-b1''] = [7] @ 8 # [9]
   \<and> ofBucket (exampleWorld []) restoreBuilder dataBucket 8
   \<and> unmapped restoreBuilder [7 \<mapsto> 107, 9 \<mapsto> 109] 8
   \<and> ofBucket (exampleWorld []) restoreBuilder dataBucket 9
   \<and> \<not> unmapped restoreBuilder [7 \<mapsto> 107, 9 \<mapsto> 109] 9
   \<and> restoreBucket (exampleWorld []) exampleStore restoreBuilder dataBucket [] =
       (None, [RemoteCreateBucket dataBucket, LocalDatabase ''b1'', RemoteRestoreBucket 70 ''dbi-b1'',
               RemoteRestoreShard 107 entry0102_s7, Warn 8 ''b1'' ''0102.s8''])"
proof -
  let ?w = "exampleWorld []"
  let ?m = "[7 \<mapsto> 107, 9 \<mapsto> (109::uint64)] :: uint64 \<rightharpoonup> uint64"
  let ?tr2 = "[RemoteCreateBucket dataBucket, LocalDatabase ''b1'']"
  let ?tr3 = "[RemoteCreateBucket dataBucket, LocalDatabase ''b1'', RemoteRestoreBucket 70 ''dbi-b1'']"
  have rn: "renamedBucket restoreBuilder dataBucket = dataBucket"
    by (simp add: renamedBucket_def example_world_defs example_defs)
  have ids: "IDString ?w (bkt_ID dataBucket) = ''b1''"
    by (simp add: dataBucket_def example_world_defs)
  have h1: "CreateBucket (server ?w) [] (renamedBucket restoreBuilder dataBucket) = Inr (dataBucket\<lparr>bkt_ID := 70\<rparr>)"
    by (simp add: rn) (simp add: dataBucket_def example_world_defs)
  have h2: "Database exampleStore (IDString ?w (bkt_ID dataBucket)) = Some ''dbi-b1''"
    by (simp add: ids) (simp add: example_world_defs)
  have h3: "MarshalBinary exampleStore ''dbi-b1'' = Inr ''dbi-b1''"
    by (simp add: example_world_defs)
  have h4: "?tr2 = [] @ [RemoteCreateBucket (renamedBucket restoreBuilder dataBucket),
                         LocalDatabase (IDString ?w (bkt_ID dataBucket))]"
    by (simp add: rn ids)
  have h5: "RestoreBucket (server ?w) ?tr2 (bkt_ID (dataBucket\<lparr>bkt_ID := 70\<rparr>)) ''dbi-b1'' = Inr ?m"
    by (simp add: example_world_defs)
  have h6: "?tr3 = ?tr2 @ [RemoteRestoreBucket (bkt_ID (dataBucket\<lparr>bkt_ID := 70\<rparr>)) ''dbi-b1'']"
    by simp
  have h7: "mapOrder ?w ?tr3 = [7] @ 8 # [9]" by (simp add: example_world_defs)
  have h8: "ofBucket ?w restoreBuilder dataBucket 8 \<and> unmapped restoreBuilder ?m 8"
    by (simp add: ofBucket_def unmapped_def ids) (simp add: example_world_defs)
  have h9: "\<forall>k'\<in>set [7]. ofBucket ?w restoreBuilder dataBucket k' \<longrightarrow> \<not> unmapped restoreBuilder ?m k'"
    by (simp add: unmapped_def) (simp add: example_world_defs example_defs)
  have h10: "fst (restoreBucket_shards ?w restoreBuilder dataBucket ?m [7] ?tr3) = None"
    by (simp add: restoreShard_def example_world_defs example_defs)
  have o9: "ofBucket ?w restoreBuilder dataBucket 9 \<and> \<not> unmapped restoreBuilder ?m 9"
    by (simp add: ofBucket_def unmapped_def ids) (simp add: example_world_defs)
  have o7: "filter (ofBucket ?w restoreBuilder dataBucket) [7] = [7]"
    by (simp add: ofBucket_def ids) (simp add: example_world_defs example_defs)
  have t7: "partialTransfer restoreBuilder ?m 7 = RemoteRestoreShard 107 entry0102_s7"
    by (simp add: partialTransfer_def) (simp add: example_world_defs example_defs)
  have t8: "partialTransfer restoreBuilder ?m 8 = Warn 8 ''b1'' ''0102.s8''"
    by (simp add: partialTransfer_def) (simp add: example_world_defs example_defs)
  from restoreBucket_unmapped_shard_returns_nil [OF h1 h2 h3 h4 h5 h6 h7 h8 h9 h10, THEN conjunct1]
  have "restoreBucket ?w exampleStore restoreBuilder dataBucket [] =
          (None, ?tr3 @ [RemoteRestoreShard 107 entry0102_s7, Warn 8 ''b1'' ''0102.s8''])"
    by (simp only: o7 t7 t8 list.map append_Nil append_Cons)
  with h7 h8 o9 show ?thesis by (simp only: append_Nil append_Cons simp_thms)
qed

section \<open>Properties of restoreOrganization\<close>

lemma createdBuckets_append: "createdBuckets (xs @ ys) = createdBuckets xs @ createdBuckets ys"
  by (induction xs rule: createdBuckets.induct) auto

lemma afterCreate_no_create:
  "\<forall>ev\<in>set evs. afterCreate w bkt ev \<Longrightarrow> createdBuckets evs = [] \<and> createdOrganizations evs = []"
  by (induction evs rule: createdBuckets.induct) auto

lemma mem_createdBuckets: "nb \<in> set (createdBuckets evs) \<longleftrightarrow> RemoteCreateBucket nb \<in> set evs"
  by (induction evs rule: createdBuckets.induct) auto

lemma mem_restoredEntries: "file \<in> set (restoredEntries evs) \<longleftrightarrow> (\<exists>i. RemoteRestoreShard i file \<in> set evs)"
  by (induction evs rule: restoredEntries.induct) auto

lemma restoreBucket_shards_events:
  "\<exists>new. snd (restoreBucket_shards w b bkt shardIDMap ks tr) = tr @ new
         \<and> (\<forall>ev\<in>set new. afterCreate w bkt ev)"
proof (induction ks arbitrary: tr)
  case Nil
  then show ?case by simp
next
  case (Cons k ks)
  show ?case
  proof (cases "shardEntries b k")
    case None
    then show ?thesis using Cons.IH [of tr] by simp
  next
    case (Some sh)
    show ?thesis
    proof (cases "IDString w (bkt_ID bkt) \<noteq> BucketID sh")
      case True
      then show ?thesis using Some Cons.IH [of tr] by simp
    next
      case False
      then have own: "BucketID sh = IDString w (bkt_ID bkt)" by simp
      show ?thesis
      proof (cases "shardIDMap (ShardID sh)")
        case None
        then show ?thesis using Some own by simp
      next
        case (Some newID)
        obtain r tr' where rs: "restoreShard w b newID sh tr = (r, tr')"
          by (cases "restoreShard w b newID sh tr")
        from restoreShard_trace [of w b newID sh tr] rs
        have tr': "tr' = tr \<or> tr' = tr @ [RemoteRestoreShard newID sh]" by simp
        show ?thesis
        proof (cases r)
          case None
          from Cons.IH [of tr'] obtain new where
            new: "snd (restoreBucket_shards w b bkt shardIDMap ks tr') = tr' @ new"
                 "\<forall>ev\<in>set new. afterCreate w bkt ev" by blast
          have step: "restoreBucket_shards w b bkt shardIDMap (k # ks) tr =
                      restoreBucket_shards w b bkt shardIDMap ks tr'"
            using \<open>shardEntries b k = Some sh\<close> own Some rs None by simp
          from tr' show ?thesis
          proof
            assume "tr' = tr"
            then show ?thesis using new step by (simp del: restoreBucket_shards.simps)
          next
            assume t: "tr' = tr @ [RemoteRestoreShard newID sh]"
            show ?thesis
              by (rule exI [of _ "RemoteRestoreShard newID sh # new"])
                 (use new step t own in \<open>simp del: restoreBucket_shards.simps\<close>)
          qed
        next
          case (Some err)
          have step: "restoreBucket_shards w b bkt shardIDMap (k # ks) tr = (Some err, tr')"
            using \<open>shardEntries b k = Some sh\<close> own \<open>shardIDMap (ShardID sh) = Some newID\<close> rs Some
            by simp
          from tr' show ?thesis
          proof
            assume "tr' = tr"
            then show ?thesis using step by (simp del: restoreBucket_shards.simps)
          next
            assume t: "tr' = tr @ [RemoteRestoreShard newID sh]"
            show ?thesis
              by (rule exI [of _ "[RemoteRestoreShard newID sh]"])
                 (use step t own in \<open>simp del: restoreBucket_shards.simps\<close>)
          qed
        qed
      qed
    qed
  qed
qed

lemma restoreBucket_events:
  "\<exists>new. snd (restoreBucket w store b bkt tr) = tr @ RemoteCreateBucket (renamedBucket b bkt) # new
         \<and> (\<forall>ev\<in>set new. afterCreate w bkt ev)"
proof -
  let ?nb = "renamedBucket b bkt"
  let ?ids = "IDString w (bkt_ID bkt)"
  let ?tr1 = "tr @ [RemoteCreateBucket ?nb]"
  let ?tr2 = "?tr1 @ [LocalDatabase ?ids]"
  show ?thesis
  proof (cases "CreateBucket (server w) tr ?nb")
    case (Inl err)
    then have "restoreBucket w store b bkt tr = (Some (CannotCreateBucket err), ?tr1)"
      by (simp add: restoreBucket_def renamedBucket_def Let_def)
    then show ?thesis by simp
  next
    case (Inr created)
    show ?thesis
    proof (cases "Database store ?ids")
      case None
      then have "snd (restoreBucket w store b bkt tr) = ?tr2"
        using Inr by (simp add: restoreBucket_def renamedBucket_def Let_def)
      then show ?thesis by simp
    next
      case (Some dbi)
      show ?thesis
      proof (cases "MarshalBinary store dbi")
        case (Inl err)
        then have "snd (restoreBucket w store b bkt tr) = ?tr2"
          using Inr Some by (simp add: restoreBucket_def renamedBucket_def Let_def)
        then show ?thesis by simp
      next
        case buf: (Inr buf)
        let ?tr3 = "?tr2 @ [RemoteRestoreBucket (bkt_ID created) buf]"
        show ?thesis
        proof (cases "RestoreBucket (server w) ?tr2 (bkt_ID created) buf")
          case (Inl err)
          then have "snd (restoreBucket w store b bkt tr) = ?tr3"
            using Inr Some buf by (simp add: restoreBucket_def renamedBucket_def Let_def)
          then show ?thesis by simp
        next
          case m: (Inr shardIDMap)
          have run: "restoreBucket w store b bkt tr =
                  restoreBucket_shards w b bkt shardIDMap (mapOrder w ?tr3) ?tr3"
            using Inr Some buf m by (simp add: restoreBucket_def renamedBucket_def Let_def)
          from restoreBucket_shards_events [of w b bkt shardIDMap "mapOrder w ?tr3" ?tr3]
          obtain new where new: "snd (restoreBucket_shards w b bkt shardIDMap (mapOrder w ?tr3) ?tr3) = ?tr3 @ new"
             "\<forall>ev\<in>set new. afterCreate w bkt ev" by blast
          show ?thesis
            by (rule exI [of _ "LocalDatabase ?ids # RemoteRestoreBucket (bkt_ID created) buf # new"])
               (use new run in simp)
        qed
      qed
    qed
  qed
qed

lemma afterCreate_OrgID [simp]: "afterCreate w (bkt\<lparr>bkt_OrgID := i\<rparr>) ev = afterCreate w bkt ev"
  by (cases ev) auto

lemma bucketLoopEvent_Cons:
  "bucketLoopEvent w b newOrgID bkts ev \<Longrightarrow> bucketLoopEvent w b newOrgID (bkt # bkts) ev"
  by (auto simp: bucketLoopEvent_def)

lemma restoreOrganization_buckets_filter:
  "restoreOrganization_buckets w store b newOrgID (filter (\<lambda>bkt. \<not> isInternal bkt) bkts) tr =
   restoreOrganization_buckets w store b newOrgID bkts tr"
  by (induction bkts arbitrary: tr) (auto simp: isInternal_def split: prod.splits option.splits)

lemma restoreOrganization_buckets_events:
  "\<exists>new n. snd (restoreOrganization_buckets w store b newOrgID bkts tr) = tr @ new
     \<and> (\<forall>ev\<in>set new. bucketLoopEvent w b newOrgID bkts ev)
     \<and> n \<le> length (filter (\<lambda>bkt. \<not> isInternal bkt) bkts)
     \<and> createdBuckets new =
         map (targetBucket b newOrgID) (take n (filter (\<lambda>bkt. \<not> isInternal bkt) bkts))
     \<and> (fst (restoreOrganization_buckets w store b newOrgID bkts tr) = None \<longrightarrow>
          n = length (filter (\<lambda>bkt. \<not> isInternal bkt) bkts))"
proof (induction bkts arbitrary: tr)
  case Nil
  then show ?case by simp
next
  case (Cons bkt bkts)
  let ?F = "filter (\<lambda>bkt. \<not> isInternal bkt)"
  show ?case
  proof (cases "isInternal bkt")
    case True
    then have step: "restoreOrganization_buckets w store b newOrgID (bkt # bkts) tr =
                     restoreOrganization_buckets w store b newOrgID bkts tr"
      by (simp add: isInternal_def)
    from Cons.IH [of tr] obtain new n where
      h: "snd (restoreOrganization_buckets w store b newOrgID bkts tr) = tr @ new"
         "\<forall>ev\<in>set new. bucketLoopEvent w b newOrgID bkts ev"
         "n \<le> length (?F bkts)"
         "createdBuckets new = map (targetBucket b newOrgID) (take n (?F bkts))"
         "fst (restoreOrganization_buckets w store b newOrgID bkts tr) = None \<longrightarrow> n = length (?F bkts)"
      by (elim exE conjE) (rule that)
    show ?thesis
      by (rule exI [of _ new], rule exI [of _ n])
         (use h True bucketLoopEvent_Cons in \<open>auto simp add: step simp del: restoreOrganization_buckets.simps\<close>)
  next
    case False
    let ?c = "bkt\<lparr>bkt_OrgID := newOrgID\<rparr>"
    let ?t = "targetBucket b newOrgID bkt"
    obtain r tr' where rb: "restoreBucket w store b ?c tr = (r, tr')"
      by (cases "restoreBucket w store b ?c tr")
    from restoreBucket_events [of w store b ?c tr] rb obtain new0 where
      new0: "tr' = tr @ RemoteCreateBucket ?t # new0" "\<forall>ev\<in>set new0. afterCreate w bkt ev"
      by (auto simp: targetBucket_def)
    have c0: "createdBuckets new0 = []" using afterCreate_no_create [OF new0(2)] by simp
    have ev0: "\<forall>ev\<in>set (RemoteCreateBucket ?t # new0). bucketLoopEvent w b newOrgID (bkt # bkts) ev"
      using new0(2) False by (auto simp: bucketLoopEvent_def)
    show ?thesis
    proof (cases r)
      case (Some err)
      then have step: "restoreOrganization_buckets w store b newOrgID (bkt # bkts) tr = (Some err, tr')"
        using False rb by (simp add: isInternal_def)
      show ?thesis
        by (rule exI [of _ "RemoteCreateBucket ?t # new0"], rule exI [of _ 1])
           (use ev0 new0(1) c0 False in \<open>simp add: step del: restoreOrganization_buckets.simps\<close>)
    next
      case None
      then have step: "restoreOrganization_buckets w store b newOrgID (bkt # bkts) tr =
                       restoreOrganization_buckets w store b newOrgID bkts tr'"
        using False rb by (simp add: isInternal_def)
      from Cons.IH [of tr'] obtain new n where
        h: "snd (restoreOrganization_buckets w store b newOrgID bkts tr') = tr' @ new"
           "\<forall>ev\<in>set new. bucketLoopEvent w b newOrgID bkts ev"
           "n \<le> length (?F bkts)"
           "createdBuckets new = map (targetBucket b newOrgID) (take n (?F bkts))"
           "fst (restoreOrganization_buckets w store b newOrgID bkts tr') = None \<longrightarrow> n = length (?F bkts)"
        by (elim exE conjE) (rule that)
      have evs: "\<forall>ev\<in>set (RemoteCreateBucket ?t # new0 @ new). bucketLoopEvent w b newOrgID (bkt # bkts) ev"
        using ev0 h(2) bucketLoopEvent_Cons by auto
      have cb: "createdBuckets (RemoteCreateBucket ?t # new0 @ new) =
                  map (targetBucket b newOrgID) (take (Suc n) (?F (bkt # bkts)))"
        using c0 h(4) False by (simp add: createdBuckets_append)
      have tr: "snd (restoreOrganization_buckets w store b newOrgID (bkt # bkts) tr) =
                  tr @ RemoteCreateBucket ?t # new0 @ new"
        using h(1) new0(1) by (simp add: step del: restoreOrganization_buckets.simps)
      have n: "Suc n \<le> length (?F (bkt # bkts))" using h(3) False by simp
      have fin: "fst (restoreOrganization_buckets w store b newOrgID (bkt # bkts) tr) = None \<longrightarrow>
                   Suc n = length (?F (bkt # bkts))"
        using h(5) False by (simp add: step del: restoreOrganization_buckets.simps)
      show ?thesis
        by (rule exI [of _ "RemoteCreateBucket ?t # new0 @ new"], rule exI [of _ "Suc n"])
           (intro conjI tr evs n cb fin)
    qed
  qed
qed

lemma bucketLoopEvent_summary:
  assumes "\<forall>ev\<in>set new. bucketLoopEvent w b newOrgID bkts ev"
  shows "createdOrganizations new = []"
    and "\<forall>nb\<in>set (createdBuckets new). \<exists>bkt\<in>set bkts. \<not> isInternal bkt \<and> nb = targetBucket b newOrgID bkt"
    and "\<forall>file\<in>set (restoredEntries new). \<exists>bkt\<in>set bkts. \<not> isInternal bkt \<and> BucketID file = IDString w (bkt_ID bkt)"
proof -
  show "createdOrganizations new = []"
    using assms
  proof (induction new rule: createdOrganizations.induct)
    case (2 org evs)
    then have "bucketLoopEvent w b newOrgID bkts (RemoteCreateOrganization org)" by simp
    then show ?case by (auto simp: bucketLoopEvent_def)
  qed auto
  show "\<forall>nb\<in>set (createdBuckets new). \<exists>bkt\<in>set bkts. \<not> isInternal bkt \<and> nb = targetBucket b newOrgID bkt"
  proof
    fix nb assume "nb \<in> set (createdBuckets new)"
    then have "RemoteCreateBucket nb \<in> set new" by (simp add: mem_createdBuckets)
    with assms have "bucketLoopEvent w b newOrgID bkts (RemoteCreateBucket nb)" by blast
    then show "\<exists>bkt\<in>set bkts. \<not> isInternal bkt \<and> nb = targetBucket b newOrgID bkt"
      by (auto simp: bucketLoopEvent_def)
  qed
  show "\<forall>file\<in>set (restoredEntries new). \<exists>bkt\<in>set bkts. \<not> isInternal bkt \<and> BucketID file = IDString w (bkt_ID bkt)"
  proof
    fix sh assume "sh \<in> set (restoredEntries new)"
    then obtain i where "RemoteRestoreShard i sh \<in> set new" by (auto simp: mem_restoredEntries)
    with assms have "bucketLoopEvent w b newOrgID bkts (RemoteRestoreShard i sh)" by blast
    then show "\<exists>bkt\<in>set bkts. \<not> isInternal bkt \<and> BucketID sh = IDString w (bkt_ID bkt)"
      by (auto simp: bucketLoopEvent_def)
  qed
qed

lemma findOrCreateOrganization_cases:
  "findOrCreateOrganization w b org tr =
     (case FindOrganization (server w) tr (lookupFilter b org) of
        Inl err \<Rightarrow>
          if ErrorCode err = ENotFound
          then (case CreateOrganization (server w) (tr @ [RemoteFindOrganization (lookupFilter b org)])
                       (targetOrganization b org) of
                  Inl err' \<Rightarrow> (Inl (CannotCreateOrganization err'),
                               tr @ [RemoteFindOrganization (lookupFilter b org),
                                     RemoteCreateOrganization (targetOrganization b org)])
                | Inr created \<Rightarrow> (Inr created,
                               tr @ [RemoteFindOrganization (lookupFilter b org),
                                     RemoteCreateOrganization (targetOrganization b org)]))
          else (Inl (CannotFindOrganization err), tr @ [RemoteFindOrganization (lookupFilter b org)])
      | Inr found \<Rightarrow> (Inr ((targetOrganization b org)\<lparr>org_ID := org_ID found\<rparr>),
                      tr @ [RemoteFindOrganization (lookupFilter b org)]))"
  by (simp add: findOrCreateOrganization_def lookupFilter_def targetOrganization_def Let_def
           split: sum.splits)

lemma restoreOrganization_after_lookup:
  assumes "findOrCreateOrganization w b org tr = (Inr newOrg, tr1)"
  shows "\<exists>rest. snd (restoreOrganization w store b org tr) = tr1 @ rest
           \<and> createdOrganizations rest = []
           \<and> (\<forall>nb\<in>set (createdBuckets rest). bkt_OrgID nb = org_ID newOrg)"
proof (cases "bucketFilter w b org")
  case (Inl err)
  then have "restoreOrganization w store b org tr = (Some err, tr1)"
    using assms by (simp add: restoreOrganization_def)
  then show ?thesis by simp
next
  case (Inr flt)
  show ?thesis
  proof (cases "FindBuckets store flt")
    case (Inl err)
    then have "restoreOrganization w store b org tr = (Some err, tr1 @ [LocalFindBuckets flt])"
      using assms Inr by (simp add: restoreOrganization_def)
    then show ?thesis by simp
  next
    case bs: (Inr buckets)
    let ?tr2 = "tr1 @ [LocalFindBuckets flt]"
    have run: "restoreOrganization w store b org tr =
                 restoreOrganization_buckets w store b (org_ID newOrg) buckets ?tr2"
      using assms Inr bs by (simp add: restoreOrganization_def)
    from restoreOrganization_buckets_events [of w store b "org_ID newOrg" buckets ?tr2]
    obtain new where
      new: "snd (restoreOrganization_buckets w store b (org_ID newOrg) buckets ?tr2) = ?tr2 @ new"
           "\<forall>ev\<in>set new. bucketLoopEvent w b (org_ID newOrg) buckets ev"
      by (elim exE conjE) (rule that)
    have "\<forall>nb\<in>set (createdBuckets new). bkt_OrgID nb = org_ID newOrg"
      using bucketLoopEvent_summary(2) [OF new(2)]
      by (auto simp: targetBucket_def renamedBucket_def)
    then show ?thesis
      by (intro exI [of _ "LocalFindBuckets flt # new"])
         (use new(1) run bucketLoopEvent_summary(1) [OF new(2)] in simp)
  qed
qed

lemma example_findOrCreate:
  "findOrCreateOrganization (exampleWorld []) (restoreBuilder\<lparr>newBucketName := nb\<rparr>) exampleOrg [] =
     (Inr (exampleOrg\<lparr>org_ID := 60\<rparr>), [exampleLookup ''org'', RemoteCreateOrganization exampleOrg])"
  by (simp add: findOrCreateOrganization_def exampleLookup_def ENotFound_def example_world_defs example_defs)

lemma example_bucketFilter:
  "bucketFilter (exampleWorld []) (restoreBuilder\<lparr>newBucketName := nb\<rparr>) exampleOrg = Inr exampleBucketFilter"
  by (simp add: bucketFilter_def exampleBucketFilter_def example_world_defs example_defs)

lemma example_FindBuckets:
  "FindBuckets exampleStore exampleBucketFilter =
     Inr [\<lparr>bkt_ID = 2, bkt_OrgID = 10, bkt_Name = ''_monitoring''\<rparr>,
          \<lparr>bkt_ID = 1, bkt_OrgID = 10, bkt_Name = ''data''\<rparr>]"
  by (simp add: example_world_defs)

lemma example_restorable:
  "filter (\<lambda>bkt. \<not> prefix ''_'' (bkt_Name bkt))
     [\<lparr>bkt_ID = 2, bkt_OrgID = 10, bkt_Name = ''_monitoring''\<rparr>,
      \<lparr>bkt_ID = 1, bkt_OrgID = 10, bkt_Name = ''data''\<rparr>] =
   [\<lparr>bkt_ID = 1, bkt_OrgID = 10, bkt_Name = ''data''\<rparr>]"
  by simp

text \<open>
  C6: \<^verbatim>\<open>restoreOrganization\<close> does with the buckets that the filter returns what it
  would do without the internal ones among them; every bucket it creates on the server
  is the target of a bucket that is not internal, and every shard entry it transfers
  belongs to a bucket that is not internal.
\<close>

theorem restoreOrganization_skips_internal_buckets:
  assumes "findOrCreateOrganization w b org tr = (Inr newOrg, tr1)"
    and "bucketFilter w b org = Inr flt"
    and "FindBuckets store flt = Inr buckets"
    and "new = drop (length (tr1 @ [LocalFindBuckets flt])) (snd (restoreOrganization w store b org tr))"
  shows "restoreOrganization w store b org tr =
           restoreOrganization_buckets w store b (org_ID newOrg)
             (filter (\<lambda>bkt. \<not> prefix ''_'' (bkt_Name bkt)) buckets) (tr1 @ [LocalFindBuckets flt])
       \<and> snd (restoreOrganization w store b org tr) = tr1 @ [LocalFindBuckets flt] @ new
       \<and> (\<forall>nb\<in>set (createdBuckets new).
             \<exists>bkt\<in>set buckets. \<not> prefix ''_'' (bkt_Name bkt) \<and> nb = targetBucket b (org_ID newOrg) bkt)
       \<and> (\<forall>file\<in>set (restoredEntries new).
             \<exists>bkt\<in>set buckets. \<not> prefix ''_'' (bkt_Name bkt) \<and> BucketID file = IDString w (bkt_ID bkt))"
proof -
  let ?tr2 = "tr1 @ [LocalFindBuckets flt]"
  have i: "isInternal = (\<lambda>bkt. prefix ''_'' (bkt_Name bkt))" by (auto simp: isInternal_def)
  have run: "restoreOrganization w store b org tr =
               restoreOrganization_buckets w store b (org_ID newOrg) buckets ?tr2"
    using assms(1-3) by (simp add: restoreOrganization_def)
  then have skip: "restoreOrganization w store b org tr =
      restoreOrganization_buckets w store b (org_ID newOrg)
        (filter (\<lambda>bkt. \<not> prefix ''_'' (bkt_Name bkt)) buckets) ?tr2"
    using restoreOrganization_buckets_filter [of w store b "org_ID newOrg" buckets ?tr2]
    by (simp add: i)
  from restoreOrganization_buckets_events [of w store b "org_ID newOrg" buckets ?tr2]
  obtain new' where
    new': "snd (restoreOrganization_buckets w store b (org_ID newOrg) buckets ?tr2) = ?tr2 @ new'"
          "\<forall>ev\<in>set new'. bucketLoopEvent w b (org_ID newOrg) buckets ev"
    by (elim exE conjE) (rule that)
  have eq: "new = new'" using assms(4) run new'(1) by simp
  have tr: "snd (restoreOrganization w store b org tr) = tr1 @ [LocalFindBuckets flt] @ new"
    using run new'(1) eq by simp
  from bucketLoopEvent_summary(2,3) [OF new'(2)] skip tr show ?thesis
    by (simp add: eq i)
qed

theorem restoreOrganization_skips_internal_buckets_witness:
  "findOrCreateOrganization (exampleWorld []) (restoreBuilder\<lparr>newBucketName := []\<rparr>) exampleOrg [] =
     (Inr (exampleOrg\<lparr>org_ID := 60\<rparr>), [exampleLookup ''org'', RemoteCreateOrganization exampleOrg])
   \<and> bucketFilter (exampleWorld []) (restoreBuilder\<lparr>newBucketName := []\<rparr>) exampleOrg = Inr exampleBucketFilter
   \<and> FindBuckets exampleStore exampleBucketFilter =
       Inr [\<lparr>bkt_ID = 2, bkt_OrgID = 10, bkt_Name = ''_monitoring''\<rparr>,
            \<lparr>bkt_ID = 1, bkt_OrgID = 10, bkt_Name = ''data''\<rparr>]
   \<and> restoreOrganization (exampleWorld []) exampleStore (restoreBuilder\<lparr>newBucketName := []\<rparr>) exampleOrg [] =
       restoreOrganization_buckets (exampleWorld []) exampleStore (restoreBuilder\<lparr>newBucketName := []\<rparr>) 60
         [\<lparr>bkt_ID = 1, bkt_OrgID = 10, bkt_Name = ''data''\<rparr>]
         [exampleLookup ''org'', RemoteCreateOrganization exampleOrg, LocalFindBuckets exampleBucketFilter]"
proof -
  note th = restoreOrganization_skips_internal_buckets
    [where store = exampleStore,
     OF example_findOrCreate [of "[]"] example_bucketFilter example_FindBuckets refl,
     THEN conjunct1]
  have "org_ID (exampleOrg\<lparr>org_ID := 60\<rparr>) = 60" by simp
  with th have "restoreOrganization (exampleWorld []) exampleStore (restoreBuilder\<lparr>newBucketName := []\<rparr>) exampleOrg [] =
       restoreOrganization_buckets (exampleWorld []) exampleStore (restoreBuilder\<lparr>newBucketName := []\<rparr>) 60
         [\<lparr>bkt_ID = 1, bkt_OrgID = 10, bkt_Name = ''data''\<rparr>]
         [exampleLookup ''org'', RemoteCreateOrganization exampleOrg, LocalFindBuckets exampleBucketFilter]"
    by (simp only: example_restorable append_Cons append_Nil)
  with example_findOrCreate [of "[]"] example_bucketFilter [of "[]"] example_FindBuckets
  show ?thesis by (simp only: simp_thms)
qed

lemma organizationsRestored_loop:
  "organizationsRestored w store b before tr tr' \<Longrightarrow>
   restoreOrganizations_orgs w store b (before @ rest) tr = restoreOrganizations_orgs w store b rest tr'"
  by (induction before arbitrary: tr) (auto split: prod.splits option.splits)

lemma partialRun_abort:
  assumes "partialRunReaches w b0 b store before org after tr"
    and "restoreOrganization w store b org tr = (Some err, tr')"
  shows "restoreRunE w b0 = (Some err, b, tr')"
proof -
  from assms(1) obtain kv flt where
    h: "NewLogger w = None"
       "\<not> (newOrgName b0 \<noteq> [] \<and> org_id b0 = [] \<and> org_name b0 = [])"
       "\<not> (newBucketName b0 \<noteq> [] \<and> bucketID b0 = [] \<and> bucketName b0 = [])"
       "loadIncremental (disk w) b0 = (None, b)"
       "newHTTPClient w = None" "\<not> full b"
       "kvEntry b = Some kv" "boltOpen w (Join (disk w) (path b) (FileName_kv kv)) = Inr store"
       "metaOpen store = None"
       "organizationFilter w b = Inr flt"
       "FindOrganizations store flt = Inr (before @ org # after)"
       "organizationsRestored w store b before [ReadBackupDir (path b0), LocalFindOrganizations flt] tr"
    by (auto simp: partialRunReaches_def split: option.splits sum.splits)
  let ?tr0 = "[ReadBackupDir (path b0), LocalFindOrganizations flt]"
  have "restoreOrganizations_orgs w store b (before @ org # after) ?tr0 =
          restoreOrganizations_orgs w store b (org # after) tr"
    by (rule organizationsRestored_loop [OF h(12)])
  also have "\<dots> = (Some err, tr')" using assms(2) by simp
  finally have "restoreOrganizations w store b [ReadBackupDir (path b0)] = (Some err, tr')"
    using h(10,11) by (simp add: restoreOrganizations_def)
  then have "restorePartial w b [ReadBackupDir (path b0)] = (Some err, tr')"
    using h(7,8,9) by (simp add: restorePartial_def)
  then show ?thesis
    using h(1-7) by (auto simp: restoreRunE_def)
qed



lemmas run_defs = runWorld_def runStore_def runBuilder_def runLoaded_def runTrace_def secondOrg_def

lemma run_load: "loadIncremental (disk (runWorld refused)) (runBuilder newOrg) = (None, runLoaded newOrg)"
  by (simp add: loadIncremental_def keepLatest_def run_defs example_world_defs example_defs)

lemma run_reaches:
  "partialRunReaches (runWorld refused) (runBuilder newOrg) (runLoaded newOrg) runStore
     [] exampleOrg [secondOrg] runTrace"
  unfolding partialRunReaches_def run_load
  by (simp add: organizationFilter_def run_defs example_world_defs example_defs)










text \<open>
  C7: the first call of \<^verbatim>\<open>restoreOrganization\<close> looks the organization up on the server
  by the name it will have. When the lookup says not found, the next call creates the
  organization, no other create call follows, the buckets are restored under the id the
  server gave, and an error of the create call is returned at once. When the lookup
  finds an organization, no organization is created and the buckets are restored under
  the id found. Any other error of the lookup is returned at once. An error of the
  lookup or of the create call also ends the loop over the organizations and is what
  \<^verbatim>\<open>restoreRunE\<close> returns, with the failed call as the last event of the run.
\<close>

theorem restoreOrganization_find_or_create:
  assumes "target = (if newOrgName b \<noteq> [] then org\<lparr>org_Name := newOrgName b\<rparr> else org)"
    and "flt = \<lparr>of_Name = Some (org_Name target), of_ID = None\<rparr>"
    and "lookup = RemoteFindOrganization flt"
  shows "(\<exists>rest. snd (restoreOrganization w store b org tr) = tr @ lookup # rest)
       \<and> (\<forall>err. FindOrganization (server w) tr flt = Inl err \<and> ErrorCode err = ENotFound \<longrightarrow>
            (\<exists>rest. snd (restoreOrganization w store b org tr) =
                      tr @ lookup # RemoteCreateOrganization target # rest
                   \<and> createdOrganizations rest = []
                   \<and> (\<forall>created. CreateOrganization (server w) (tr @ [lookup]) target = Inr created \<longrightarrow>
                        (\<forall>nb\<in>set (createdBuckets rest). bkt_OrgID nb = org_ID created))
                   \<and> (\<forall>err'. CreateOrganization (server w) (tr @ [lookup]) target = Inl err' \<longrightarrow>
                        rest = []
                      \<and> fst (restoreOrganization w store b org tr) = Some (CannotCreateOrganization err'))))
       \<and> (\<forall>found. FindOrganization (server w) tr flt = Inr found \<longrightarrow>
            (\<exists>rest. snd (restoreOrganization w store b org tr) = tr @ lookup # rest
                   \<and> createdOrganizations rest = []
                   \<and> (\<forall>nb\<in>set (createdBuckets rest). bkt_OrgID nb = org_ID found)))
       \<and> (\<forall>err. FindOrganization (server w) tr flt = Inl err \<and> ErrorCode err \<noteq> ENotFound \<longrightarrow>
            restoreOrganization w store b org tr = (Some (CannotFindOrganization err), tr @ [lookup]))
       \<and> (\<forall>found bflt buckets.
             FindOrganization (server w) tr flt = Inr found
             \<and> bucketFilter w b org = Inr bflt \<and> FindBuckets store bflt = Inr buckets \<longrightarrow>
             restoreOrganization w store b org tr =
               restoreOrganization_buckets w store b (org_ID found) buckets
                 (tr @ [lookup, LocalFindBuckets bflt]))
       \<and> (\<forall>err created bflt buckets.
             FindOrganization (server w) tr flt = Inl err \<and> ErrorCode err = ENotFound
             \<and> CreateOrganization (server w) (tr @ [lookup]) target = Inr created
             \<and> bucketFilter w b org = Inr bflt \<and> FindBuckets store bflt = Inr buckets \<longrightarrow>
             restoreOrganization w store b org tr =
               restoreOrganization_buckets w store b (org_ID created) buckets
                 (tr @ [lookup, RemoteCreateOrganization target, LocalFindBuckets bflt]))
       \<and> (\<forall>err. FindOrganization (server w) tr flt = Inl err \<and> ErrorCode err \<noteq> ENotFound \<longrightarrow>
             (\<forall>orgs. restoreOrganizations_orgs w store b (org # orgs) tr =
                      (Some (CannotFindOrganization err), tr @ [lookup]))
           \<and> (\<forall>b0 before after. partialRunReaches w b0 b store before org after tr \<longrightarrow>
                 restoreRunE w b0 = (Some (CannotFindOrganization err), b, tr @ [lookup])))
       \<and> (\<forall>err err'.
             FindOrganization (server w) tr flt = Inl err \<and> ErrorCode err = ENotFound
             \<and> CreateOrganization (server w) (tr @ [lookup]) target = Inl err' \<longrightarrow>
             (\<forall>orgs. restoreOrganizations_orgs w store b (org # orgs) tr =
                      (Some (CannotCreateOrganization err'),
                       tr @ [lookup, RemoteCreateOrganization target]))
           \<and> (\<forall>b0 before after. partialRunReaches w b0 b store before org after tr \<longrightarrow>
                 restoreRunE w b0 =
                   (Some (CannotCreateOrganization err'), b,
                    tr @ [lookup, RemoteCreateOrganization target])))"
proof -
  have t: "target = targetOrganization b org" using assms(1) by (simp add: targetOrganization_def)
  have f: "flt = lookupFilter b org" using assms(2) t by (simp add: lookupFilter_def)
  note foc = findOrCreateOrganization_cases [of w b org tr, folded t f assms(3)]
  have other: "restoreOrganization w store b org tr = (Some (CannotFindOrganization err), tr @ [lookup])"
    if "FindOrganization (server w) tr flt = Inl err" "ErrorCode err \<noteq> ENotFound" for err
    using that foc by (simp add: restoreOrganization_def assms(3))
  have found: "\<exists>rest. snd (restoreOrganization w store b org tr) = tr @ lookup # rest
                   \<and> createdOrganizations rest = []
                   \<and> (\<forall>nb\<in>set (createdBuckets rest). bkt_OrgID nb = org_ID found)"
    if "FindOrganization (server w) tr flt = Inr found" for found
  proof -
    have "findOrCreateOrganization w b org tr = (Inr (target\<lparr>org_ID := org_ID found\<rparr>), tr @ [lookup])"
      using that foc by (simp add: assms(3))
    from restoreOrganization_after_lookup [OF this, of store] show ?thesis by simp
  qed
  have create: "\<exists>rest. snd (restoreOrganization w store b org tr) =
                      tr @ lookup # RemoteCreateOrganization target # rest
                   \<and> createdOrganizations rest = []
                   \<and> (\<forall>created. CreateOrganization (server w) (tr @ [lookup]) target = Inr created \<longrightarrow>
                        (\<forall>nb\<in>set (createdBuckets rest). bkt_OrgID nb = org_ID created))
                   \<and> (\<forall>err'. CreateOrganization (server w) (tr @ [lookup]) target = Inl err' \<longrightarrow>
                        rest = []
                      \<and> fst (restoreOrganization w store b org tr) = Some (CannotCreateOrganization err'))"
    if nf: "FindOrganization (server w) tr flt = Inl err" "ErrorCode err = ENotFound" for err
  proof (cases "CreateOrganization (server w) (tr @ [lookup]) target")
    case (Inl err')
    then have "restoreOrganization w store b org tr =
                 (Some (CannotCreateOrganization err'), tr @ [lookup, RemoteCreateOrganization target])"
      using nf foc by (simp add: restoreOrganization_def assms(3))
    then show ?thesis using Inl by simp
  next
    case (Inr created)
    then have "findOrCreateOrganization w b org tr =
                 (Inr created, tr @ [lookup, RemoteCreateOrganization target])"
      using nf foc by (simp add: assms(3))
    from restoreOrganization_after_lookup [OF this, of store] Inr show ?thesis by simp
  qed
  have first: "\<exists>rest. snd (restoreOrganization w store b org tr) = tr @ lookup # rest"
  proof (cases "FindOrganization (server w) tr flt")
    case (Inl err)
    show ?thesis
    proof (cases "ErrorCode err = ENotFound")
      case True
      from create [OF Inl True] show ?thesis by auto
    next
      case False
      from other [OF Inl False] show ?thesis by simp
    qed
  next
    case (Inr fnd)
    from found [OF Inr] show ?thesis by auto
  qed
  have pinFound: "restoreOrganization w store b org tr =
               restoreOrganization_buckets w store b (org_ID found) buckets
                 (tr @ [lookup, LocalFindBuckets bflt])"
    if "FindOrganization (server w) tr flt = Inr found" "bucketFilter w b org = Inr bflt"
       "FindBuckets store bflt = Inr buckets" for found bflt buckets
    using that foc by (simp add: restoreOrganization_def assms(3))
  have pinCreated: "restoreOrganization w store b org tr =
               restoreOrganization_buckets w store b (org_ID created) buckets
                 (tr @ [lookup, RemoteCreateOrganization target, LocalFindBuckets bflt])"
    if "FindOrganization (server w) tr flt = Inl err" "ErrorCode err = ENotFound"
       "CreateOrganization (server w) (tr @ [lookup]) target = Inr created"
       "bucketFilter w b org = Inr bflt" "FindBuckets store bflt = Inr buckets"
    for err created bflt buckets
    using that foc by (simp add: restoreOrganization_def assms(3))
  have otherUp: "(\<forall>orgs. restoreOrganizations_orgs w store b (org # orgs) tr =
                      (Some (CannotFindOrganization err), tr @ [lookup]))
           \<and> (\<forall>b0 before after. partialRunReaches w b0 b store before org after tr \<longrightarrow>
                 restoreRunE w b0 = (Some (CannotFindOrganization err), b, tr @ [lookup]))"
    if h: "FindOrganization (server w) tr flt = Inl err" "ErrorCode err \<noteq> ENotFound" for err
  proof -
    note res = other [OF h]
    have "restoreOrganizations_orgs w store b (org # orgs) tr =
            (Some (CannotFindOrganization err), tr @ [lookup])" for orgs
      using res by simp
    with partialRun_abort [OF _ res] show ?thesis by blast
  qed
  have createUp: "(\<forall>orgs. restoreOrganizations_orgs w store b (org # orgs) tr =
                      (Some (CannotCreateOrganization err'),
                       tr @ [lookup, RemoteCreateOrganization target]))
           \<and> (\<forall>b0 before after. partialRunReaches w b0 b store before org after tr \<longrightarrow>
                 restoreRunE w b0 =
                   (Some (CannotCreateOrganization err'), b,
                    tr @ [lookup, RemoteCreateOrganization target]))"
    if h: "FindOrganization (server w) tr flt = Inl err" "ErrorCode err = ENotFound"
          "CreateOrganization (server w) (tr @ [lookup]) target = Inl err'" for err err'
  proof -
    have res: "restoreOrganization w store b org tr =
                 (Some (CannotCreateOrganization err'), tr @ [lookup, RemoteCreateOrganization target])"
      using h foc by (simp add: restoreOrganization_def assms(3))
    have "restoreOrganizations_orgs w store b (org # orgs) tr =
            (Some (CannotCreateOrganization err'), tr @ [lookup, RemoteCreateOrganization target])"
      for orgs
      using res by simp
    with partialRun_abort [OF _ res] show ?thesis by blast
  qed
  have c2: "(\<forall>err. FindOrganization (server w) tr flt = Inl err \<and> ErrorCode err = ENotFound \<longrightarrow>
            (\<exists>rest. snd (restoreOrganization w store b org tr) =
                      tr @ lookup # RemoteCreateOrganization target # rest
                   \<and> createdOrganizations rest = []
                   \<and> (\<forall>created. CreateOrganization (server w) (tr @ [lookup]) target = Inr created \<longrightarrow>
                        (\<forall>nb\<in>set (createdBuckets rest). bkt_OrgID nb = org_ID created))
                   \<and> (\<forall>err'. CreateOrganization (server w) (tr @ [lookup]) target = Inl err' \<longrightarrow>
                        rest = []
                      \<and> fst (restoreOrganization w store b org tr) = Some (CannotCreateOrganization err'))))"
    using create by blast
  have c3: "(\<forall>found. FindOrganization (server w) tr flt = Inr found \<longrightarrow>
            (\<exists>rest. snd (restoreOrganization w store b org tr) = tr @ lookup # rest
                   \<and> createdOrganizations rest = []
                   \<and> (\<forall>nb\<in>set (createdBuckets rest). bkt_OrgID nb = org_ID found)))"
    using found by blast
  have c4: "(\<forall>err. FindOrganization (server w) tr flt = Inl err \<and> ErrorCode err \<noteq> ENotFound \<longrightarrow>
            restoreOrganization w store b org tr = (Some (CannotFindOrganization err), tr @ [lookup]))"
    using other by blast
  have c5: "(\<forall>found bflt buckets.
             FindOrganization (server w) tr flt = Inr found
             \<and> bucketFilter w b org = Inr bflt \<and> FindBuckets store bflt = Inr buckets \<longrightarrow>
             restoreOrganization w store b org tr =
               restoreOrganization_buckets w store b (org_ID found) buckets
                 (tr @ [lookup, LocalFindBuckets bflt]))"
    using pinFound by blast
  have c6: "(\<forall>err created bflt buckets.
             FindOrganization (server w) tr flt = Inl err \<and> ErrorCode err = ENotFound
             \<and> CreateOrganization (server w) (tr @ [lookup]) target = Inr created
             \<and> bucketFilter w b org = Inr bflt \<and> FindBuckets store bflt = Inr buckets \<longrightarrow>
             restoreOrganization w store b org tr =
               restoreOrganization_buckets w store b (org_ID created) buckets
                 (tr @ [lookup, RemoteCreateOrganization target, LocalFindBuckets bflt]))"
    using pinCreated by blast
  have c7: "(\<forall>err. FindOrganization (server w) tr flt = Inl err \<and> ErrorCode err \<noteq> ENotFound \<longrightarrow>
             (\<forall>orgs. restoreOrganizations_orgs w store b (org # orgs) tr =
                      (Some (CannotFindOrganization err), tr @ [lookup]))
           \<and> (\<forall>b0 before after. partialRunReaches w b0 b store before org after tr \<longrightarrow>
                 restoreRunE w b0 = (Some (CannotFindOrganization err), b, tr @ [lookup])))"
    using otherUp by blast
  have c8: "(\<forall>err err'.
             FindOrganization (server w) tr flt = Inl err \<and> ErrorCode err = ENotFound
             \<and> CreateOrganization (server w) (tr @ [lookup]) target = Inl err' \<longrightarrow>
             (\<forall>orgs. restoreOrganizations_orgs w store b (org # orgs) tr =
                      (Some (CannotCreateOrganization err'),
                       tr @ [lookup, RemoteCreateOrganization target]))
           \<and> (\<forall>b0 before after. partialRunReaches w b0 b store before org after tr \<longrightarrow>
                 restoreRunE w b0 =
                   (Some (CannotCreateOrganization err'), b,
                    tr @ [lookup, RemoteCreateOrganization target])))"
    using createUp by blast
  from first c2 c3 c4 c5 c6 c7 c8 show ?thesis
    by - (intro conjI; assumption)
qed

theorem restoreOrganization_find_or_create_witness:
  "FindOrganization (server (exampleWorld [])) [] \<lparr>of_Name = Some ''existing'', of_ID = None\<rparr> =
     Inr \<lparr>org_ID = 50, org_Name = ''existing''\<rparr>
   \<and> (\<exists>rest. snd (restoreOrganization (exampleWorld []) exampleStore
                    (restoreBuilder\<lparr>newOrgName := ''existing''\<rparr>) exampleOrg []) =
                [exampleLookup ''existing''] @ rest
            \<and> createdOrganizations rest = []
            \<and> (\<forall>nb\<in>set (createdBuckets rest). bkt_OrgID nb = 50))
   \<and> FindOrganization (server (exampleWorld [])) [] \<lparr>of_Name = Some ''broken'', of_ID = None\<rparr> =
       Inl (External ''unavailable'' [])
   \<and> ErrorCode (External ''unavailable'' []) \<noteq> ENotFound
   \<and> restoreOrganization (exampleWorld []) exampleStore (restoreBuilder\<lparr>newOrgName := ''broken''\<rparr>) exampleOrg [] =
       (Some (CannotFindOrganization (External ''unavailable'' [])), [exampleLookup ''broken''])
   \<and> FindOrganization (server (exampleWorld [])) [] \<lparr>of_Name = Some ''org'', of_ID = None\<rparr> =
       Inl (External ENotFound [])
   \<and> (\<exists>rest. snd (restoreOrganization (exampleWorld []) exampleStore restoreBuilder exampleOrg []) =
                [exampleLookup ''org'', RemoteCreateOrganization exampleOrg] @ rest
            \<and> createdOrganizations rest = [])
   \<and> partialRunReaches (runWorld ''taken'') (runBuilder ''broken'') (runLoaded ''broken'') runStore
         [] exampleOrg [secondOrg] runTrace
   \<and> FindOrganization (server (runWorld ''taken'')) runTrace \<lparr>of_Name = Some ''broken'', of_ID = None\<rparr> =
       Inl (External ''unavailable'' [])
   \<and> restoreOrganizations_orgs (runWorld ''taken'') runStore (runLoaded ''broken'')
         [exampleOrg, secondOrg] runTrace =
       (Some (CannotFindOrganization (External ''unavailable'' [])), runTrace @ [exampleLookup ''broken''])
   \<and> restoreRunE (runWorld ''taken'') (runBuilder ''broken'') =
       (Some (CannotFindOrganization (External ''unavailable'' [])), runLoaded ''broken'',
        runTrace @ [exampleLookup ''broken''])"
proof -
  let ?w = "exampleWorld []"
  have n1: "newOrgName (restoreBuilder\<lparr>newOrgName := x\<rparr>) = x" for x by simp
  have n0: "newOrgName restoreBuilder = []" by (simp add: example_world_defs example_defs)
  have nm: "org_Name (exampleOrg\<lparr>org_Name := x\<rparr>) = x" "org_Name exampleOrg = ''org''" for x
    by (simp_all add: exampleOrg_def)
  have f1: "FindOrganization (server ?w) [] \<lparr>of_Name = Some ''existing'', of_ID = None\<rparr> =
              Inr \<lparr>org_ID = 50, org_Name = ''existing''\<rparr>"
    by (simp add: example_world_defs)
  have f2: "FindOrganization (server ?w) [] \<lparr>of_Name = Some ''broken'', of_ID = None\<rparr> =
              Inl (External ''unavailable'' [])"
    by (simp add: example_world_defs)
  have f3: "FindOrganization (server ?w) [] \<lparr>of_Name = Some ''org'', of_ID = None\<rparr> =
              Inl (External ENotFound [])"
    by (simp add: example_world_defs ENotFound_def)
  have e2: "ErrorCode (External ''unavailable'' []) \<noteq> ENotFound" by (simp add: ENotFound_def)
  have e3: "ErrorCode (External ENotFound []) = ENotFound" by simp
  have t1: "exampleOrg\<lparr>org_Name := x\<rparr> =
             (if newOrgName (restoreBuilder\<lparr>newOrgName := x\<rparr>) \<noteq> []
              then exampleOrg\<lparr>org_Name := newOrgName (restoreBuilder\<lparr>newOrgName := x\<rparr>)\<rparr>
              else exampleOrg)" if "x \<noteq> []" for x
    using that by simp
  have t2: "\<lparr>of_Name = Some x, of_ID = None\<rparr> =
             \<lparr>of_Name = Some (org_Name (exampleOrg\<lparr>org_Name := x\<rparr>)), of_ID = None\<rparr>" for x
    by simp
  have t3: "exampleLookup x = RemoteFindOrganization \<lparr>of_Name = Some x, of_ID = None\<rparr>" for x
    by (simp add: exampleLookup_def)
  have t0: "exampleOrg = (if newOrgName restoreBuilder \<noteq> []
                          then exampleOrg\<lparr>org_Name := newOrgName restoreBuilder\<rparr> else exampleOrg)"
    by (simp add: n0)
  have t0': "\<lparr>of_Name = Some ''org'', of_ID = None\<rparr> = \<lparr>of_Name = Some (org_Name exampleOrg), of_ID = None\<rparr>"
    by (simp add: nm)
  have found: "\<exists>rest. snd (restoreOrganization ?w exampleStore
                    (restoreBuilder\<lparr>newOrgName := ''existing''\<rparr>) exampleOrg []) =
                [exampleLookup ''existing''] @ rest
            \<and> createdOrganizations rest = []
            \<and> (\<forall>nb\<in>set (createdBuckets rest). bkt_OrgID nb = 50)"
    using restoreOrganization_find_or_create
      [where store = exampleStore and tr = "[]", OF t1 t2 t3,
       THEN conjunct2, THEN conjunct2, THEN conjunct1, rule_format, OF _ f1]
    by simp
  have broken: "restoreOrganization ?w exampleStore (restoreBuilder\<lparr>newOrgName := ''broken''\<rparr>) exampleOrg [] =
       (Some (CannotFindOrganization (External ''unavailable'' [])), [exampleLookup ''broken''])"
    using restoreOrganization_find_or_create
      [where store = exampleStore and tr = "[]", OF t1 t2 t3,
       THEN conjunct2, THEN conjunct2, THEN conjunct2, THEN conjunct1, rule_format,
       OF _ conjI [OF f2 e2]]
    by simp
  have create: "\<exists>rest. snd (restoreOrganization ?w exampleStore restoreBuilder exampleOrg []) =
                [exampleLookup ''org'', RemoteCreateOrganization exampleOrg] @ rest
            \<and> createdOrganizations rest = []"
    using restoreOrganization_find_or_create
      [where store = exampleStore and tr = "[]", OF t0 t0' t3,
       THEN conjunct2, THEN conjunct1, rule_format, OF conjI [OF f3 e3]]
    by auto
  have r1: "exampleOrg\<lparr>org_Name := ''broken''\<rparr> =
             (if newOrgName (runLoaded ''broken'') \<noteq> []
              then exampleOrg\<lparr>org_Name := newOrgName (runLoaded ''broken'')\<rparr> else exampleOrg)"
    by (simp add: run_defs)
  have rf: "FindOrganization (server (runWorld ''taken'')) runTrace
              \<lparr>of_Name = Some ''broken'', of_ID = None\<rparr> = Inl (External ''unavailable'' [])"
    by (simp add: run_defs example_world_defs)
  note up = restoreOrganization_find_or_create
      [where store = runStore and tr = runTrace and w = "runWorld ''taken''", OF r1 t2 t3,
       THEN conjunct2, THEN conjunct2, THEN conjunct2, THEN conjunct2, THEN conjunct2,
       THEN conjunct2, THEN conjunct1, rule_format, OF conjI [OF rf e2]]
  have loop: "restoreOrganizations_orgs (runWorld ''taken'') runStore (runLoaded ''broken'')
         [exampleOrg, secondOrg] runTrace =
       (Some (CannotFindOrganization (External ''unavailable'' [])), runTrace @ [exampleLookup ''broken''])"
    using up [THEN conjunct1, rule_format, of "[secondOrg]"] .
  have top: "restoreRunE (runWorld ''taken'') (runBuilder ''broken'') =
       (Some (CannotFindOrganization (External ''unavailable'' [])), runLoaded ''broken'',
        runTrace @ [exampleLookup ''broken''])"
    using up [THEN conjunct2, rule_format, OF run_reaches] .
  from f1 found f2 e2 broken f3 create run_reaches [of "''taken''" "''broken''"] rf loop top
  show ?thesis by (intro conjI)
qed



end
